theory Spec2Isabelle
  imports Complex_Main "HOL-Library.Multiset"
begin

section \<open>NumPy arrays and the library operations the notebook calls\<close>

text \<open>
  The notebook works on dense two-dimensional float arrays (\<open>film[i,:,:]\<close>, \<open>noise[i,:,:]\<close>).
  An array is the list of its rows; heights are taken in exact arithmetic (\<open>real\<close>):
  the rounding of float64, overflow to infinity and NaN are not represented, so every
  statement below about sums, signs and equality of heights is a statement in exact
  arithmetic. A list of rows with no row stands for the shape \<open>(0, 0)\<close>.
\<close>

type_synonym array2 = "real list list"

datatype error = ValueError | IndexError

definition nrows :: "array2 \<Rightarrow> nat" where
  "nrows A = length A"

definition ncols :: "array2 \<Rightarrow> nat" where
  "ncols A = (case A of [] \<Rightarrow> 0 | r # _ \<Rightarrow> length r)"

definition is_array :: "array2 \<Rightarrow> bool" where
  "is_array A = list_all (\<lambda>r. length r = ncols A) A"

definition tabulate2 :: "nat \<Rightarrow> nat \<Rightarrow> (nat \<Rightarrow> nat \<Rightarrow> real) \<Rightarrow> array2" where
  "tabulate2 m n f = map (\<lambda>i. map (\<lambda>j. f i j) [0..<n]) [0..<m]"

text \<open>\<open>np.sum(A)\<close>: the sum of all cells.\<close>

definition np_sum :: "array2 \<Rightarrow> real" where
  "np_sum A = sum_list (map sum_list A)"

text \<open>\<open>c * A\<close> for a scalar \<open>c\<close>, and \<open>A ** 2\<close>.\<close>

definition np_scale :: "real \<Rightarrow> array2 \<Rightarrow> array2" where
  "np_scale c A = map (map (\<lambda>x. c * x)) A"

definition np_square :: "array2 \<Rightarrow> array2" where
  "np_square A = map (map (\<lambda>x. x * x)) A"

text \<open>
  \<open>A + B\<close> follows NumPy's broadcasting: along each axis the two lengths must be equal or
  one of them must be 1 (that operand is then repeated); otherwise a \<open>ValueError\<close>
  ("operands could not be broadcast together") is raised.
\<close>

definition bdim :: "nat \<Rightarrow> nat \<Rightarrow> nat option" where
  "bdim a b = (if a = b then Some a else if a = 1 then Some b else if b = 1 then Some a else None)"

definition bget :: "array2 \<Rightarrow> nat \<Rightarrow> nat \<Rightarrow> real" where
  "bget A i j = A ! (if nrows A = 1 then 0 else i) ! (if ncols A = 1 then 0 else j)"

definition np_add :: "array2 \<Rightarrow> array2 \<Rightarrow> error + array2" where
  "np_add A B =
     (case bdim (nrows A) (nrows B) of
        None \<Rightarrow> Inl ValueError
      | Some m \<Rightarrow>
         (case bdim (ncols A) (ncols B) of
            None \<Rightarrow> Inl ValueError
          | Some n \<Rightarrow> Inr (tabulate2 m n (\<lambda>i j. bget A i j + bget B i j))))"

definition broadcastable :: "array2 \<Rightarrow> array2 \<Rightarrow> bool" where
  "broadcastable A B = (bdim (nrows A) (nrows B) \<noteq> None \<and> bdim (ncols A) (ncols B) \<noteq> None)"

definition err_bind :: "error + 'a \<Rightarrow> ('a \<Rightarrow> error + 'b) \<Rightarrow> error + 'b" where
  "err_bind r f = (case r of Inl e \<Rightarrow> Inl e | Inr x \<Rightarrow> f x)"

text \<open>
  \<open>scipy.ndimage.laplace(input)\<close> is called with its default \<open>mode='reflect'\<close>. It
  correlates every line of the array, along each axis in turn, with the weights
  \<open>[1, -2, 1]\<close> and adds the results of the axes. In mode \<open>reflect\<close> the line is extended
  by mirroring about the edge of the last cell, \<open>(d c b a | a b c d | d c b a)\<close>:
  position \<open>i\<close> outside \<open>0..n-1\<close> reads the cell \<open>reflect n i\<close>.
\<close>

definition reflect :: "nat \<Rightarrow> int \<Rightarrow> nat" where
  "reflect n i =
     (let k = i mod (2 * int n)
      in if k < int n then nat k else nat (2 * int n - 1 - k))"

definition correlate1d :: "(nat \<Rightarrow> real) \<Rightarrow> nat \<Rightarrow> nat \<Rightarrow> real" where
  "correlate1d a n i =
     1 * a (reflect n (int i - 1)) + (- 2) * a i + 1 * a (reflect n (int i + 1))"

definition laplace :: "array2 \<Rightarrow> array2" where
  "laplace A =
     tabulate2 (nrows A) (ncols A)
       (\<lambda>i j. correlate1d (\<lambda>k. A ! k ! j) (nrows A) i
             + correlate1d (\<lambda>k. A ! i ! k) (ncols A) j)"

text \<open>
  \<open>np.gradient(f)\<close> with unit spacing and the default \<open>edge_order=1\<close>: central differences
  in the interior of every line, one-sided first differences at its two ends. It raises
  \<open>ValueError\<close> when an axis has fewer than two cells. The result holds the derivative
  along axis 0 first, then the one along axis 1.
\<close>

definition gradient1d :: "(nat \<Rightarrow> real) \<Rightarrow> nat \<Rightarrow> nat \<Rightarrow> real" where
  "gradient1d a n i =
     (if i = 0 then (a 1 - a 0) / 1
      else if i = n - 1 then (a (n - 1) - a (n - 2)) / 1
      else (a (i + 1) - a (i - 1)) / 2)"

definition np_gradient :: "array2 \<Rightarrow> error + (array2 \<times> array2)" where
  "np_gradient A =
     (if nrows A < 2 \<or> ncols A < 2 then Inl ValueError
      else Inr (tabulate2 (nrows A) (ncols A) (\<lambda>i j. gradient1d (\<lambda>k. A ! k ! j) (nrows A) i),
                tabulate2 (nrows A) (ncols A) (\<lambda>i j. gradient1d (\<lambda>k. A ! i ! k) (ncols A) j)))"

section \<open>The random generator\<close>

text \<open>
  \<open>np.random.default_rng(seed)\<close> and the methods of the generator it returns belong to
  NumPy; they are taken as a parameter. A generator state has type \<open>'g\<close>; every method
  returns its value together with the advanced state. \<open>random_interval g i\<close> is the
  bounded draw used by \<open>Generator.shuffle\<close>: a value in \<open>0..i\<close>.
\<close>

record 'g rng_lib =
  default_rng :: "nat \<Rightarrow> 'g"
  random_interval :: "'g \<Rightarrow> nat \<Rightarrow> nat \<times> 'g"
  normal :: "'g \<Rightarrow> nat \<Rightarrow> real list \<times> 'g"
  uniform :: "'g \<Rightarrow> real \<Rightarrow> real \<Rightarrow> nat \<Rightarrow> real list \<times> 'g"

definition interval_ok :: "('g \<Rightarrow> nat \<Rightarrow> nat \<times> 'g) \<Rightarrow> bool" where
  "interval_ok iv = (\<forall>g i. fst (iv g i) \<le> i)"

text \<open>\<open>uniform(lo, hi, size)\<close> returns as many values as asked for.\<close>

definition uniform_ok :: "('g \<Rightarrow> real \<Rightarrow> real \<Rightarrow> nat \<Rightarrow> real list \<times> 'g) \<Rightarrow> bool" where
  "uniform_ok u = (\<forall>g lo hi n. length (fst (u g lo hi n)) = n)"

text \<open>
  \<open>Generator.shuffle(x)\<close> on a flat iterator: \<^verbatim>\<open>for i in reversed(range(1, n)):
  j = random_interval(bitgen, i); x[i], x[j] = x[j], x[i]\<close> with \<open>n = len(x)\<close>.
\<close>

primrec shuffle_loop :: "('g \<Rightarrow> nat \<Rightarrow> nat \<times> 'g) \<Rightarrow> nat \<Rightarrow> 'g \<Rightarrow> 'a list \<Rightarrow> 'a list \<times> 'g" where
  "shuffle_loop iv 0 g x = (x, g)"
| "shuffle_loop iv (Suc k) g x =
     (case iv g (Suc k) of (j, g') \<Rightarrow> shuffle_loop iv k g' (x[Suc k := x ! j, j := x ! Suc k]))"

definition shuffle :: "('g \<Rightarrow> nat \<Rightarrow> nat \<times> 'g) \<Rightarrow> 'g \<Rightarrow> 'a list \<Rightarrow> 'a list \<times> 'g" where
  "shuffle iv g x = shuffle_loop iv (length x - 1) g x"

text \<open>
  A generator for running the model on concrete inputs: its state is a number whose
  mixed-radix digits are the successive draws.
\<close>

definition digit_interval :: "nat \<Rightarrow> nat \<Rightarrow> nat \<times> nat" where
  "digit_interval g i = (g mod (i + 1), g div (i + 1))"

definition digit_lib :: "nat rng_lib" where
  "digit_lib = \<lparr> default_rng = (\<lambda>seed. seed), random_interval = digit_interval,
                 normal = (\<lambda>g n. (replicate n 0, g)),
                 uniform = (\<lambda>g lo hi n. (replicate n lo, g)) \<rparr>"

section \<open>Noise arrays\<close>

type_synonym array3 = "array2 list"

definition neg_ones :: "nat \<Rightarrow> nat \<Rightarrow> array2" where
  "neg_ones m n = replicate m (replicate n (- 1))"

text \<open>\<^verbatim>\<open>A[k:,:] = c\<close>\<close>

definition set_rows_from :: "nat \<Rightarrow> real \<Rightarrow> array2 \<Rightarrow> array2" where
  "set_rows_from k c A = take k A @ map (map (\<lambda>_. c)) (drop k A)"

text \<open>Writing a flat sequence back through \<open>.flat\<close>: rows of length \<open>n\<close>, in C order.\<close>

primrec unflatten :: "nat \<Rightarrow> nat \<Rightarrow> 'a list \<Rightarrow> 'a list list" where
  "unflatten 0 n xs = []"
| "unflatten (Suc m) n xs = take n xs # unflatten m n (drop n xs)"

definition unflatten3 :: "nat \<Rightarrow> nat \<Rightarrow> nat \<Rightarrow> real list \<Rightarrow> array3" where
  "unflatten3 t m n xs = map (unflatten m n) (unflatten t (m * n) xs)"

definition flat2 :: "array2 \<Rightarrow> real list" where
  "flat2 A = concat A"

definition flat3 :: "array3 \<Rightarrow> real list" where
  "flat3 B = concat (map concat B)"

definition np_sum3 :: "array3 \<Rightarrow> real" where
  "np_sum3 B = sum_list (map np_sum B)"

section \<open>The notebook's variables and its cells\<close>

text \<open>
  The arrays and the generator that the cells assign. The scalars of the first cell
  (\<open>L\<close>, \<open>T\<close>, \<open>v\<close>, \<open>l\<close>, \<open>max_starting_height\<close>, \<open>seed_init\<close>, \<open>seed_random\<close>) are never
  reassigned and are passed as arguments; the temporaries of the loop bodies (\<open>l_film\<close>,
  \<open>g_film\<close>, \<open>g2_film\<close>, \<open>d_film\<close>) and the loop index are local to an iteration and
  are not part of the state. A statement returns the variables as they are when it
  ends, and the exception that ended it, if any.
\<close>

record 'g globals =
  choice :: array2
  shuffler :: "'g option"
  gaussian :: array2
  film :: array3
  noise :: array3

type_synonym 'g stmt = "'g globals \<Rightarrow> 'g globals \<times> error option"

definition seq :: "'g stmt \<Rightarrow> 'g stmt \<Rightarrow> 'g stmt" where
  "seq p q s = (case p s of (s', Some e) \<Rightarrow> (s', Some e) | (s', None) \<Rightarrow> q s')"

primrec for_range :: "nat list \<Rightarrow> (nat \<Rightarrow> 'g stmt) \<Rightarrow> 'g stmt" where
  "for_range [] body s = (s, None)"
| "for_range (i # is) body s =
     (case body i s of (s', Some e) \<Rightarrow> (s', Some e) | (s', None) \<Rightarrow> for_range is body s')"

text \<open>\<^verbatim>\<open>film[...] = <expression>\<close>: nothing is assigned when the expression raises.\<close>

definition assign_film :: "error + array3 \<Rightarrow> 'g stmt" where
  "assign_film r s = (case r of Inl e \<Rightarrow> (s, Some e) | Inr fm \<Rightarrow> (s\<lparr>film := fm\<rparr>, None))"

text \<open>\<^verbatim>\<open>B[k,:,:]\<close> for an index \<open>k \<ge> 0\<close>, read and written.\<close>

definition get_slice :: "array3 \<Rightarrow> nat \<Rightarrow> error + array2" where
  "get_slice B k = (if k < length B then Inr (B ! k) else Inl IndexError)"

definition broadcast_to :: "nat \<Rightarrow> nat \<Rightarrow> array2 \<Rightarrow> error + array2" where
  "broadcast_to m n A =
     (if (nrows A = m \<or> nrows A = 1) \<and> (ncols A = n \<or> ncols A = 1)
      then Inr (tabulate2 m n (bget A)) else Inl ValueError)"

definition set_slice :: "array3 \<Rightarrow> nat \<Rightarrow> array2 \<Rightarrow> error + array3" where
  "set_slice B k A =
     (if k < length B
      then err_bind (broadcast_to (nrows (B ! k)) (ncols (B ! k)) A) (\<lambda>A'. Inr (B[k := A']))
      else Inl IndexError)"

definition np_zeros :: "nat \<Rightarrow> nat \<Rightarrow> nat \<Rightarrow> array3" where
  "np_zeros t m n = replicate t (replicate m (replicate n 0))"

section \<open>The four update rules of the notebook\<close>

text \<open>
  Cell \<open>diagnostic-tuesday\<close> (Edwards-Wilkinson, no noise):
  \<^verbatim>\<open>d_film = v*laplace(film[i-1,:,:])\<close>, then \<^verbatim>\<open>film[i-1,:,:] + d_film\<close>.
\<close>

definition ew_step :: "real \<Rightarrow> array2 \<Rightarrow> error + array2" where
  "ew_step v F = (let d_film = np_scale v (laplace F) in np_add F d_film)"

text \<open>
  Cell \<open>collectible-bearing\<close> (Edwards-Wilkinson with noise):
  \<^verbatim>\<open>d_film = v*laplace(film[i-1,:,:]) + noise[i,:,:]\<close>.
\<close>

definition ew_noise_step :: "real \<Rightarrow> array2 \<Rightarrow> array2 \<Rightarrow> error + array2" where
  "ew_noise_step v F N =
     err_bind (np_add (np_scale v (laplace F)) N) (\<lambda>d_film. np_add F d_film)"

text \<open>
  Cell \<open>clinical-prior\<close> (Kardar-Parisi-Zhang, no noise):
  \<^verbatim>\<open>l_film = laplace(f); g_film = np.gradient(f); g2_film = g_film[0]**2 + g_film[1]**2;
  d_film = v*l_film + l/2*g2_film\<close>.
\<close>

definition kpz_drift :: "real \<Rightarrow> real \<Rightarrow> array2 \<Rightarrow> error + array2" where
  "kpz_drift v l F =
     (let l_film = laplace F in
      err_bind (np_gradient F) (\<lambda>g_film.
      err_bind (np_add (np_square (fst g_film)) (np_square (snd g_film))) (\<lambda>g2_film.
      np_add (np_scale v l_film) (np_scale (l / 2) g2_film))))"

definition kpz_step :: "real \<Rightarrow> real \<Rightarrow> array2 \<Rightarrow> error + array2" where
  "kpz_step v l F = err_bind (kpz_drift v l F) (\<lambda>d_film. np_add F d_film)"

text \<open>
  Cell \<open>removed-nothing\<close> (Kardar-Parisi-Zhang with noise):
  \<^verbatim>\<open>d_film = v*l_film + l/2*g2_film + noise[i,:,:]\<close>.
\<close>

definition kpz_noise_step :: "real \<Rightarrow> real \<Rightarrow> array2 \<Rightarrow> array2 \<Rightarrow> error + array2" where
  "kpz_noise_step v l F N =
     err_bind (kpz_drift v l F) (\<lambda>d0.
     err_bind (np_add d0 N) (\<lambda>d_film.
     np_add F d_film))"

section \<open>The cells\<close>

text \<open>
  The cells start with
  \<^verbatim>\<open>film = np.zeros((T,L,L))\<close> and
  \<^verbatim>\<open>film[0,:,:] = np.random.default_rng(seed=seed_init).uniform(0, max_starting_height, size=(L,L))\<close>.
  \<open>Generator.uniform(low, high, size)\<close> raises \<open>ValueError\<close> when \<open>high - low < 0\<close>; the
  right-hand side is evaluated before the slice is assigned.
\<close>

definition np_uniform :: "'g rng_lib \<Rightarrow> 'g \<Rightarrow> real \<Rightarrow> real \<Rightarrow> nat \<Rightarrow> error + real list" where
  "np_uniform lib g lo hi n =
     (if hi - lo < 0 then Inl ValueError else Inr (fst (uniform lib g lo hi n)))"

definition init_film :: "'g rng_lib \<Rightarrow> nat \<Rightarrow> nat \<Rightarrow> real \<Rightarrow> nat \<Rightarrow> 'g stmt" where
  "init_film lib L T max_starting_height seed_init =
     seq (\<lambda>s. (s\<lparr>film := np_zeros T L L\<rparr>, None))
         (\<lambda>s. assign_film
                (err_bind (np_uniform lib (default_rng lib seed_init) 0 max_starting_height (L * L))
                   (\<lambda>xs. set_slice (film s) 0 (unflatten L L xs))) s)"

text \<open>
  Cell \<open>noble-question\<close>:
  \<^verbatim>\<open>choice = -np.ones((L,L)); choice[L//2:,:] = 1;
  shuffler = np.random.default_rng(seed=seed_random); shuffler.shuffle(choice.flat);
  gaussian = np.random.default_rng(seed=seed_random).normal(size=(L,L))\<close>.
\<close>

definition cell_noble_question :: "'g rng_lib \<Rightarrow> nat \<Rightarrow> nat \<Rightarrow> 'g stmt" where
  "cell_noble_question lib L seed_random s =
     (let choice0 = set_rows_from (L div 2) 1 (neg_ones L L);
          r = shuffle (random_interval lib) (default_rng lib seed_random) (flat2 choice0)
      in (s\<lparr>choice := unflatten L L (fst r),
            shuffler := Some (snd r),
            gaussian := unflatten L L (fst (normal lib (default_rng lib seed_random) (L * L)))\<rparr>,
          None))"

text \<open>
  The bounded noise of the cells \<open>collectible-bearing\<close> and \<open>removed-nothing\<close>:
  \<^verbatim>\<open>shuffler = np.random.default_rng(seed=seed_random); noise = -np.ones((T,L,L));
  noise[:,L//2:,:] = 1; shuffler.shuffle(noise[1:,:,:].flat)\<close>.
\<close>

definition make_noise :: "'g rng_lib \<Rightarrow> nat \<Rightarrow> nat \<Rightarrow> nat \<Rightarrow> 'g stmt" where
  "make_noise lib L T seed_random s =
     (let noise0 = map (set_rows_from (L div 2) 1) (replicate T (neg_ones L L));
          r = shuffle (random_interval lib) (default_rng lib seed_random) (flat3 (drop 1 noise0))
      in (s\<lparr>shuffler := Some (snd r),
            noise := take 1 noise0 @ unflatten3 (T - 1) L L (fst r)\<rparr>,
          None))"

text \<open>
  The bodies of the four time loops, \<^verbatim>\<open>for i in range(1,T)\<close>. Each reads \<open>film[i-1,:,:]\<close>,
  evaluates the right-hand side and assigns \<open>film[i,:,:]\<close>. In the last loop the
  Laplacian and gradient terms are evaluated before \<open>noise[i,:,:]\<close> is read, so an
  exception of theirs comes first.
\<close>

definition ew_body :: "real \<Rightarrow> nat \<Rightarrow> 'g stmt" where
  "ew_body v i s =
     assign_film
       (err_bind (get_slice (film s) (i - 1)) (\<lambda>F.
        err_bind (ew_step v F) (\<lambda>G.
        set_slice (film s) i G))) s"

definition ew_noise_body :: "real \<Rightarrow> nat \<Rightarrow> 'g stmt" where
  "ew_noise_body v i s =
     assign_film
       (err_bind (get_slice (film s) (i - 1)) (\<lambda>F.
        err_bind (get_slice (noise s) i) (\<lambda>N.
        err_bind (ew_noise_step v F N) (\<lambda>G.
        set_slice (film s) i G)))) s"

definition kpz_body :: "real \<Rightarrow> real \<Rightarrow> nat \<Rightarrow> 'g stmt" where
  "kpz_body v l i s =
     assign_film
       (err_bind (get_slice (film s) (i - 1)) (\<lambda>F.
        err_bind (kpz_step v l F) (\<lambda>G.
        set_slice (film s) i G))) s"

definition kpz_noise_body :: "real \<Rightarrow> real \<Rightarrow> nat \<Rightarrow> 'g stmt" where
  "kpz_noise_body v l i s =
     assign_film
       (err_bind (get_slice (film s) (i - 1)) (\<lambda>F.
        err_bind (kpz_drift v l F) (\<lambda>d0.
        err_bind (get_slice (noise s) i) (\<lambda>N.
        err_bind (kpz_noise_step v l F N) (\<lambda>G.
        set_slice (film s) i G))))) s"

definition cell_diagnostic_tuesday ::
    "'g rng_lib \<Rightarrow> nat \<Rightarrow> nat \<Rightarrow> real \<Rightarrow> real \<Rightarrow> nat \<Rightarrow> 'g stmt" where
  "cell_diagnostic_tuesday lib L T v max_starting_height seed_init =
     seq (init_film lib L T max_starting_height seed_init)
         (for_range [1..<T] (ew_body v))"

definition cell_collectible_bearing ::
    "'g rng_lib \<Rightarrow> nat \<Rightarrow> nat \<Rightarrow> real \<Rightarrow> real \<Rightarrow> nat \<Rightarrow> nat \<Rightarrow> 'g stmt" where
  "cell_collectible_bearing lib L T v max_starting_height seed_init seed_random =
     seq (init_film lib L T max_starting_height seed_init)
    (seq (make_noise lib L T seed_random)
         (for_range [1..<T] (ew_noise_body v)))"

definition cell_clinical_prior ::
    "'g rng_lib \<Rightarrow> nat \<Rightarrow> nat \<Rightarrow> real \<Rightarrow> real \<Rightarrow> real \<Rightarrow> nat \<Rightarrow> 'g stmt" where
  "cell_clinical_prior lib L T v l max_starting_height seed_init =
     seq (init_film lib L T max_starting_height seed_init)
         (for_range [1..<T] (kpz_body v l))"

definition cell_removed_nothing ::
    "'g rng_lib \<Rightarrow> nat \<Rightarrow> nat \<Rightarrow> real \<Rightarrow> real \<Rightarrow> real \<Rightarrow> nat \<Rightarrow> nat \<Rightarrow> 'g stmt" where
  "cell_removed_nothing lib L T v l max_starting_height seed_init seed_random =
     seq (init_film lib L T max_starting_height seed_init)
    (seq (make_noise lib L T seed_random)
         (for_range [1..<T] (kpz_noise_body v l)))"

section \<open>Notions of the specification\<close>

text \<open>
  The specification's Laplacian, in its own words: the 5-point stencil with periodic
  (toroidal) wraparound, where the neighbour of an edge cell that lies outside the grid
  is the cell on the opposite edge.
\<close>

definition periodic_laplace :: "array2 \<Rightarrow> array2" where
  "periodic_laplace A =
     tabulate2 (nrows A) (ncols A)
       (\<lambda>i j. A ! ((i + nrows A - 1) mod nrows A) ! j + A ! ((i + 1) mod nrows A) ! j
             + A ! i ! ((j + ncols A - 1) mod ncols A) + A ! i ! ((j + 1) mod ncols A)
             - 4 * A ! i ! j)"

text \<open>The specification's update rule, cell by cell, with the notebook's operators.\<close>

definition spec_step :: "real \<Rightarrow> real \<Rightarrow> array2 \<Rightarrow> array2 \<Rightarrow> array2 \<Rightarrow> array2 \<Rightarrow> array2" where
  "spec_step v l F g0 g1 N =
     tabulate2 (nrows F) (ncols F)
       (\<lambda>i j. F ! i ! j + v * laplace F ! i ! j
             + (l / 2) * ((g0 ! i ! j)\<^sup>2 + (g1 ! i ! j)\<^sup>2) + N ! i ! j)"

text \<open>A flat field, a field with one cell changed, and the test for flatness.\<close>

definition flat_field :: "nat \<Rightarrow> nat \<Rightarrow> real \<Rightarrow> array2" where
  "flat_field m n c = replicate m (replicate n c)"

definition set_cell :: "array2 \<Rightarrow> nat \<Rightarrow> nat \<Rightarrow> real \<Rightarrow> array2" where
  "set_cell A p q h = A[p := (A ! p)[q := h]]"

definition is_flat :: "array2 \<Rightarrow> bool" where
  "is_flat A = list_all (list_all (\<lambda>x. x = hd (hd A))) A"

text \<open>Two cells are neighbours when they differ by one step along one axis.\<close>

definition adjacent :: "nat \<Rightarrow> nat \<Rightarrow> nat \<Rightarrow> nat \<Rightarrow> bool" where
  "adjacent i j p q = ((i = p \<and> (j = Suc q \<or> Suc j = q)) \<or> (j = q \<and> (i = Suc p \<or> Suc i = p)))"

text \<open>An array of shape \<open>(T, L, L)\<close>, as \<open>film\<close> and \<open>noise\<close> are allocated.\<close>

definition has_shape3 :: "nat \<Rightarrow> nat \<Rightarrow> array3 \<Rightarrow> bool" where
  "has_shape3 T L B =
     (length B = T \<and> list_all (\<lambda>A. is_array A \<and> nrows A = L \<and> ncols A = L) B)"

text \<open>The notebook before any cell has run.\<close>

definition no_globals :: "'g globals" where
  "no_globals = \<lparr> choice = [], shuffler = None, gaussian = [], film = [], noise = [] \<rparr>"

section \<open>Arrays as tables\<close>

lemma tabulate2_nth: "i < m \<Longrightarrow> j < n \<Longrightarrow> tabulate2 m n f ! i ! j = f i j"
  by (simp add: tabulate2_def)

lemma nrows_tabulate2 [simp]: "nrows (tabulate2 m n f) = m"
  by (simp add: tabulate2_def nrows_def)

lemma ncols_empty: "nrows A = 0 \<Longrightarrow> ncols A = 0"
  by (simp add: nrows_def ncols_def)

lemma ncols_tabulate2: "(m = 0 \<Longrightarrow> n = 0) \<Longrightarrow> ncols (tabulate2 m n f) = n"
  by (cases m) (simp_all add: tabulate2_def ncols_def upt_conv_Cons del: upt_Suc)

lemma row_length_tabulate2: "r \<in> set (tabulate2 m n f) \<Longrightarrow> length r = n"
  by (auto simp: tabulate2_def)

lemma is_array_tabulate2 [simp]: "is_array (tabulate2 m n f)"
proof (cases m)
  case 0
  then show ?thesis by (simp add: is_array_def tabulate2_def)
next
  case (Suc k)
  then have "ncols (tabulate2 m n f) = n" by (simp add: ncols_tabulate2)
  then show ?thesis by (simp add: is_array_def list_all_iff row_length_tabulate2)
qed

lemma tabulate2_cong:
  "(\<And>i j. i < m \<Longrightarrow> j < n \<Longrightarrow> f i j = g i j) \<Longrightarrow> tabulate2 m n f = tabulate2 m n g"
  by (simp add: tabulate2_def)

lemma np_sum_tabulate2: "np_sum (tabulate2 m n f) = (\<Sum>i<m. \<Sum>j<n. f i j)"
  by (simp add: np_sum_def tabulate2_def comp_def interv_sum_list_conv_sum_set_nat atLeast0LessThan)

lemma is_array_row: "is_array A \<Longrightarrow> i < nrows A \<Longrightarrow> length (A ! i) = ncols A"
  by (simp add: is_array_def list_all_iff nrows_def)

lemma tabulate2_array:
  "is_array A \<Longrightarrow> tabulate2 (nrows A) (ncols A) (\<lambda>i j. A ! i ! j) = A"
  by (auto simp: is_array_def list_all_iff tabulate2_def nrows_def intro!: nth_equalityI)

lemma np_sum_array: "is_array A \<Longrightarrow> np_sum A = (\<Sum>i<nrows A. \<Sum>j<ncols A. A ! i ! j)"
  using np_sum_tabulate2 [of "nrows A" "ncols A" "\<lambda>i j. A ! i ! j"]
  by (simp add: tabulate2_array)

lemma np_scale_tabulate2:
  "np_scale c (tabulate2 m n f) = tabulate2 m n (\<lambda>i j. c * f i j)"
  by (simp add: np_scale_def tabulate2_def)

lemma np_square_tabulate2:
  "np_square (tabulate2 m n f) = tabulate2 m n (\<lambda>i j. f i j * f i j)"
  by (simp add: np_square_def tabulate2_def)

lemma bdim_same [simp]: "bdim a a = Some a"
  by (simp add: bdim_def)

lemma np_add_tabulate2:
  "np_add (tabulate2 m n f) (tabulate2 m n g) = Inr (tabulate2 m n (\<lambda>i j. f i j + g i j))"
proof (cases "m = 0")
  case True
  then show ?thesis by (simp add: np_add_def tabulate2_def ncols_def nrows_def)
next
  case False
  then have nc: "ncols (tabulate2 m n f) = n" "ncols (tabulate2 m n g) = n"
    by (simp_all add: ncols_tabulate2)
  have "tabulate2 m n (\<lambda>i j. bget (tabulate2 m n f) i j + bget (tabulate2 m n g) i j)
        = tabulate2 m n (\<lambda>i j. f i j + g i j)"
    by (rule tabulate2_cong) (auto simp: bget_def nc tabulate2_nth)
  then show ?thesis by (simp add: np_add_def nc)
qed

lemma np_add_array:
  assumes "is_array A" "is_array B" "nrows B = nrows A" "ncols B = ncols A"
  shows "np_add A B = Inr (tabulate2 (nrows A) (ncols A) (\<lambda>i j. A ! i ! j + B ! i ! j))"
proof -
  have "np_add (tabulate2 (nrows A) (ncols A) (\<lambda>i j. A ! i ! j))
               (tabulate2 (nrows A) (ncols A) (\<lambda>i j. B ! i ! j))
        = Inr (tabulate2 (nrows A) (ncols A) (\<lambda>i j. A ! i ! j + B ! i ! j))"
    by (rule np_add_tabulate2)
  moreover have "tabulate2 (nrows A) (ncols A) (\<lambda>i j. A ! i ! j) = A"
    using assms(1) by (rule tabulate2_array)
  moreover have "tabulate2 (nrows A) (ncols A) (\<lambda>i j. B ! i ! j) = B"
    using assms(2-4) tabulate2_array [of B] by simp
  ultimately show ?thesis by simp
qed

lemma reflect_left: "i < n \<Longrightarrow> reflect n (int i - 1) = i - 1"
proof (cases i)
  case 0
  assume "i < n"
  with 0 have "(- 1) mod (2 * int n) = 2 * int n - 1"
    by (simp add: zmod_minus1)
  with 0 \<open>i < n\<close> show ?thesis by (simp add: reflect_def Let_def)
next
  case (Suc k)
  assume "i < n"
  with Suc have "int k mod (2 * int n) = int k" by simp
  with Suc \<open>i < n\<close> show ?thesis by (simp add: reflect_def Let_def)
qed

lemma reflect_right: "i < n \<Longrightarrow> reflect n (int i + 1) = (if Suc i = n then i else Suc i)"
proof -
  assume lt: "i < n"
  then have "(int i + 1) mod (2 * int n) = int i + 1" by simp
  with lt show ?thesis by (auto simp: reflect_def Let_def)
qed

lemma correlate1d_nat:
  "i < n \<Longrightarrow> correlate1d a n i = a (i - 1) - 2 * a i + a (if Suc i = n then i else Suc i)"
  by (simp add: correlate1d_def reflect_left reflect_right)

lemma sum_left_shift: "(\<Sum>i<Suc k. a (i - 1)) = a 0 + (\<Sum>i<k. (a i :: real))"
  by (induction k) simp_all

lemma sum_right_shift:
  "(\<Sum>i<Suc k. a (if Suc i = Suc k then i else Suc i)) = (\<Sum>i<k. a (Suc i)) + (a k :: real)"
  by simp

lemma sum_correlate1d: "(\<Sum>i<n. correlate1d a n i) = 0"
proof (cases n)
  case 0
  then show ?thesis by simp
next
  case (Suc k)
  have "(\<Sum>i<n. correlate1d a n i)
        = (\<Sum>i<n. a (i - 1) - 2 * a i + a (if Suc i = n then i else Suc i))"
    by (rule sum.cong) (simp_all add: correlate1d_nat)
  also have "\<dots> = (\<Sum>i<n. a (i - 1)) - 2 * (\<Sum>i<n. a i)
                   + (\<Sum>i<n. a (if Suc i = n then i else Suc i))"
    by (simp add: sum.distrib sum_subtractf sum_distrib_left)
  also have "\<dots> = (a 0 + (\<Sum>i<k. a i)) - 2 * (\<Sum>i<Suc k. a i)
                   + ((\<Sum>i<k. a (Suc i)) + a k)"
    unfolding Suc sum_left_shift sum_right_shift ..
  also have "\<dots> = 0"
  proof -
    have "(\<Sum>i<k. a (Suc i)) = (\<Sum>i<k. a i) + a k - a 0"
      using sum.lessThan_Suc_shift [of a k] by simp
    then show ?thesis by simp
  qed
  finally show ?thesis .
qed

lemma laplace_nth:
  "i < nrows A \<Longrightarrow> j < ncols A \<Longrightarrow>
   laplace A ! i ! j = correlate1d (\<lambda>k. A ! k ! j) (nrows A) i + correlate1d (\<lambda>k. A ! i ! k) (ncols A) j"
  by (simp add: laplace_def tabulate2_nth)

lemma np_sum_laplace: "np_sum (laplace A) = 0"
proof -
  have "np_sum (laplace A)
        = (\<Sum>i<nrows A. \<Sum>j<ncols A. correlate1d (\<lambda>k. A ! k ! j) (nrows A) i)
        + (\<Sum>i<nrows A. \<Sum>j<ncols A. correlate1d (\<lambda>k. A ! i ! k) (ncols A) j)"
    by (simp add: laplace_def np_sum_tabulate2 sum.distrib)
  also have "(\<Sum>i<nrows A. \<Sum>j<ncols A. correlate1d (\<lambda>k. A ! k ! j) (nrows A) i)
        = (\<Sum>j<ncols A. \<Sum>i<nrows A. correlate1d (\<lambda>k. A ! k ! j) (nrows A) i)"
    by (rule sum.swap)
  finally show ?thesis by (simp add: sum_correlate1d)
qed

lemma ew_step_eq:
  assumes "is_array F"
  shows "ew_step v F = Inr (tabulate2 (nrows F) (ncols F) (\<lambda>i j. F ! i ! j + v * laplace F ! i ! j))"
proof -
  have sc: "np_scale v (laplace F) = tabulate2 (nrows F) (ncols F) (\<lambda>i j. v * laplace F ! i ! j)"
  proof -
    have "np_scale v (laplace F) = tabulate2 (nrows F) (ncols F)
        (\<lambda>i j. v * (correlate1d (\<lambda>k. F ! k ! j) (nrows F) i + correlate1d (\<lambda>k. F ! i ! k) (ncols F) j))"
      by (simp add: laplace_def np_scale_tabulate2)
    also have "\<dots> = tabulate2 (nrows F) (ncols F) (\<lambda>i j. v * laplace F ! i ! j)"
      by (rule tabulate2_cong) (simp add: laplace_nth)
    finally show ?thesis .
  qed
  have "np_add F (tabulate2 (nrows F) (ncols F) (\<lambda>i j. v * laplace F ! i ! j))
        = Inr (tabulate2 (nrows F) (ncols F)
             (\<lambda>i j. F ! i ! j + tabulate2 (nrows F) (ncols F) (\<lambda>i j. v * laplace F ! i ! j) ! i ! j))"
    using assms by (intro np_add_array) (simp_all add: ncols_tabulate2 ncols_empty)
  also have "tabulate2 (nrows F) (ncols F)
             (\<lambda>i j. F ! i ! j + tabulate2 (nrows F) (ncols F) (\<lambda>i j. v * laplace F ! i ! j) ! i ! j)
        = tabulate2 (nrows F) (ncols F) (\<lambda>i j. F ! i ! j + v * laplace F ! i ! j)"
    by (rule tabulate2_cong) (simp add: tabulate2_nth)
  finally show ?thesis by (simp add: ew_step_def sc)
qed

section \<open>The Laplacian as a stencil; flat and perturbed fields\<close>

lemma laplace_mirror_stencil:
  assumes "i < nrows A" "j < ncols A"
  shows "laplace A ! i ! j =
           (if i = 0 then A ! i ! j else A ! (i - 1) ! j)
         + (if Suc i = nrows A then A ! i ! j else A ! Suc i ! j)
         + (if j = 0 then A ! i ! j else A ! i ! (j - 1))
         + (if Suc j = ncols A then A ! i ! j else A ! i ! Suc j)
         - 4 * A ! i ! j"
  using assms by (simp add: laplace_nth correlate1d_nat)

lemma nrows_flat_field [simp]: "nrows (flat_field m n c) = m"
  by (simp add: flat_field_def nrows_def)

lemma ncols_flat_field: "0 < m \<Longrightarrow> ncols (flat_field m n c) = n"
  by (cases m) (simp_all add: flat_field_def ncols_def)

lemma flat_field_nth: "i < m \<Longrightarrow> j < n \<Longrightarrow> flat_field m n c ! i ! j = c"
  by (simp add: flat_field_def)

lemma flat_field_tabulate2: "flat_field m n c = tabulate2 m n (\<lambda>i j. c)"
  by (simp add: flat_field_def tabulate2_def map_replicate_const)

lemma is_array_flat_field [simp]: "is_array (flat_field m n c)"
  by (simp add: flat_field_tabulate2)

lemma nrows_set_cell [simp]: "nrows (set_cell A p q h) = nrows A"
  by (simp add: set_cell_def nrows_def)

lemma set_cell_nth:
  "i < nrows A \<Longrightarrow> j < length (A ! i) \<Longrightarrow>
   set_cell A p q h ! i ! j = (if i = p \<and> j = q then h else A ! i ! j)"
  by (cases "i = p") (simp_all add: set_cell_def nrows_def)

lemma set_cell_row_length:
  "i < nrows A \<Longrightarrow> length (set_cell A p q h ! i) = length (A ! i)"
  by (cases "i = p") (simp_all add: set_cell_def nrows_def)

lemma set_cell_tabulate2:
  assumes "is_array A"
  shows "set_cell A p q h =
           tabulate2 (nrows A) (ncols A) (\<lambda>i j. if i = p \<and> j = q then h else A ! i ! j)"
proof (rule nth_equalityI)
  show "length (set_cell A p q h) = length (tabulate2 (nrows A) (ncols A) (\<lambda>i j. if i = p \<and> j = q then h else A ! i ! j))"
    by (simp add: set_cell_def tabulate2_def nrows_def)
next
  fix i assume "i < length (set_cell A p q h)"
  then have i: "i < nrows A" by (simp add: set_cell_def nrows_def)
  then have len: "length (A ! i) = ncols A" using assms by (simp add: is_array_row)
  show "set_cell A p q h ! i = tabulate2 (nrows A) (ncols A) (\<lambda>i j. if i = p \<and> j = q then h else A ! i ! j) ! i"
  proof (rule nth_equalityI)
    show "length (set_cell A p q h ! i) = length (tabulate2 (nrows A) (ncols A) (\<lambda>i j. if i = p \<and> j = q then h else A ! i ! j) ! i)"
      using i len by (simp add: set_cell_row_length) (simp add: tabulate2_def)
  next
    fix j assume "j < length (set_cell A p q h ! i)"
    then have j: "j < ncols A" using i len by (simp add: set_cell_row_length)
    show "set_cell A p q h ! i ! j = tabulate2 (nrows A) (ncols A) (\<lambda>i j. if i = p \<and> j = q then h else A ! i ! j) ! i ! j"
      using i j len by (simp add: set_cell_nth tabulate2_nth)
  qed
qed

lemma is_array_set_cell: "is_array A \<Longrightarrow> is_array (set_cell A p q h)"
  by (simp add: set_cell_tabulate2)

lemma ncols_set_cell: "is_array A \<Longrightarrow> ncols (set_cell A p q h) = ncols A"
  by (simp add: set_cell_tabulate2 ncols_tabulate2 ncols_empty)

lemma laplace_flat_zero:
  assumes "i < m" "j < n"
  shows "laplace (flat_field m n c) ! i ! j = 0"
proof -
  have nc: "ncols (flat_field m n c) = n" using assms by (simp add: ncols_flat_field)
  show ?thesis
    using assms by (simp add: laplace_mirror_stencil nc flat_field_nth)
qed

lemma ew_step_flat: "ew_step v (flat_field m n c) = Inr (flat_field m n c)"
proof (cases "m = 0")
  case True
  then show ?thesis
    by (simp add: ew_step_eq) (simp add: flat_field_def tabulate2_def)
next
  case False
  then have nc: "ncols (flat_field m n c) = n" by (simp add: ncols_flat_field)
  have "tabulate2 m n (\<lambda>i j. flat_field m n c ! i ! j + v * laplace (flat_field m n c) ! i ! j)
        = tabulate2 m n (\<lambda>i j. c)"
    by (rule tabulate2_cong) (simp add: laplace_flat_zero flat_field_nth)
  then show ?thesis by (simp add: ew_step_eq nc flat_field_tabulate2 [symmetric])
qed

lemma bumped_nth:
  assumes "i < m" "j < n"
  shows "set_cell (flat_field m n c) p q h ! i ! j = (if i = p \<and> j = q then h else c)"
proof -
  have "length (flat_field m n c ! i) = n" using assms by (simp add: flat_field_def)
  then show ?thesis using assms by (simp add: set_cell_nth flat_field_nth)
qed

lemma pred_neq: "0 < (p::nat) \<Longrightarrow> (p - Suc 0 = p) = False"
  by arith

lemma laplace_bumped_at:
  assumes "p < m" "q < n" "2 \<le> m \<or> 2 \<le> n" "c < h"
  shows "laplace (set_cell (flat_field m n c) p q h) ! p ! q < 0"
proof -
  have nc: "ncols (set_cell (flat_field m n c) p q h) = n"
    using assms by (simp add: ncols_set_cell ncols_flat_field)
  have "laplace (set_cell (flat_field m n c) p q h) ! p ! q
        = (if p = 0 then h else c) + (if Suc p = m then h else c)
        + (if q = 0 then h else c) + (if Suc q = n then h else c) - 4 * h"
    using assms(1,2) by (simp add: laplace_mirror_stencil nc bumped_nth pred_neq)
  also have "\<dots> < 0"
  proof -
    have "p \<noteq> 0 \<or> Suc p \<noteq> m \<or> q \<noteq> 0 \<or> Suc q \<noteq> n" using assms(3) by arith
    then show ?thesis using assms(4) by (auto split: if_splits)
  qed
  finally show ?thesis .
qed

lemma laplace_bumped_neighbour:
  assumes "p < m" "q < n" "i < m" "j < n" "adjacent i j p q" "c < h"
  shows "0 < laplace (set_cell (flat_field m n c) p q h) ! i ! j"
proof -
  have nc: "ncols (set_cell (flat_field m n c) p q h) = n"
    using assms by (simp add: ncols_set_cell ncols_flat_field)
  from assms(5) consider "i = p" "j = Suc q" | "i = p" "Suc j = q" | "j = q" "i = Suc p" | "j = q" "Suc i = p"
    by (auto simp: adjacent_def)
  then have "laplace (set_cell (flat_field m n c) p q h) ! i ! j = h - c"
  proof cases
    case 1 with assms(1-4) show ?thesis
      by (simp add: laplace_mirror_stencil nc bumped_nth pred_neq)
  next
    case 2 with assms(1-4) show ?thesis
      by (auto simp: laplace_mirror_stencil nc bumped_nth pred_neq)
  next
    case 3 with assms(1-4) show ?thesis
      by (simp add: laplace_mirror_stencil nc bumped_nth pred_neq)
  next
    case 4 with assms(1-4) show ?thesis
      by (auto simp: laplace_mirror_stencil nc bumped_nth pred_neq)
  qed
  then show ?thesis using assms(6) by simp
qed

section \<open>The update rules in closed form\<close>

lemma np_scale_laplace:
  "np_scale v (laplace F) = tabulate2 (nrows F) (ncols F) (\<lambda>i j. v * laplace F ! i ! j)"
proof -
  have "np_scale v (laplace F) = tabulate2 (nrows F) (ncols F)
      (\<lambda>i j. v * (correlate1d (\<lambda>k. F ! k ! j) (nrows F) i + correlate1d (\<lambda>k. F ! i ! k) (ncols F) j))"
    by (simp add: laplace_def np_scale_tabulate2)
  also have "\<dots> = tabulate2 (nrows F) (ncols F) (\<lambda>i j. v * laplace F ! i ! j)"
    by (rule tabulate2_cong) (simp add: laplace_nth)
  finally show ?thesis .
qed

lemma np_add_array_tab:
  assumes "is_array A"
  shows "np_add A (tabulate2 (nrows A) (ncols A) g)
         = Inr (tabulate2 (nrows A) (ncols A) (\<lambda>i j. A ! i ! j + g i j))"
proof -
  have "np_add (tabulate2 (nrows A) (ncols A) (\<lambda>i j. A ! i ! j)) (tabulate2 (nrows A) (ncols A) g)
        = Inr (tabulate2 (nrows A) (ncols A) (\<lambda>i j. A ! i ! j + g i j))"
    by (rule np_add_tabulate2)
  then show ?thesis using assms by (simp add: tabulate2_array)
qed

lemma np_add_tab_array:
  assumes "is_array B" "nrows B = m" "ncols B = n"
  shows "np_add (tabulate2 m n f) B = Inr (tabulate2 m n (\<lambda>i j. f i j + B ! i ! j))"
proof -
  have "np_add (tabulate2 m n f) (tabulate2 m n (\<lambda>i j. B ! i ! j))
        = Inr (tabulate2 m n (\<lambda>i j. f i j + B ! i ! j))"
    by (rule np_add_tabulate2)
  moreover have "tabulate2 m n (\<lambda>i j. B ! i ! j) = B"
    using assms tabulate2_array [of B] by simp
  ultimately show ?thesis by simp
qed

lemma np_gradient_eq:
  assumes "2 \<le> nrows F" "2 \<le> ncols F"
  shows "np_gradient F =
     Inr (tabulate2 (nrows F) (ncols F) (\<lambda>i j. gradient1d (\<lambda>k. F ! k ! j) (nrows F) i),
          tabulate2 (nrows F) (ncols F) (\<lambda>i j. gradient1d (\<lambda>k. F ! i ! k) (ncols F) j))"
  using assms by (simp add: np_gradient_def)

lemma np_gradient_small: "nrows F < 2 \<or> ncols F < 2 \<Longrightarrow> np_gradient F = Inl ValueError"
  by (simp add: np_gradient_def)

lemma err_bind_Inr [simp]: "err_bind (Inr x) f = f x"
  by (simp add: err_bind_def)

lemma err_bind_Inl [simp]: "err_bind (Inl e) f = Inl e"
  by (simp add: err_bind_def)

lemma kpz_drift_eq:
  assumes "2 \<le> nrows F" "2 \<le> ncols F"
  shows "kpz_drift v l F =
     Inr (tabulate2 (nrows F) (ncols F)
       (\<lambda>i j. v * laplace F ! i ! j
            + l / 2 * ((gradient1d (\<lambda>k. F ! k ! j) (nrows F) i)\<^sup>2
                     + (gradient1d (\<lambda>k. F ! i ! k) (ncols F) j)\<^sup>2)))"
  using assms
  by (simp add: kpz_drift_def Let_def np_gradient_eq np_square_tabulate2 np_add_tabulate2
      np_scale_tabulate2 np_scale_laplace power2_eq_square)

lemma kpz_drift_small: "nrows F < 2 \<or> ncols F < 2 \<Longrightarrow> kpz_drift v l F = Inl ValueError"
  by (simp add: kpz_drift_def Let_def np_gradient_small)

lemma kpz_step_eq:
  assumes "is_array F" "2 \<le> nrows F" "2 \<le> ncols F"
  shows "kpz_step v l F =
     Inr (tabulate2 (nrows F) (ncols F)
       (\<lambda>i j. F ! i ! j + (v * laplace F ! i ! j
            + l / 2 * ((gradient1d (\<lambda>k. F ! k ! j) (nrows F) i)\<^sup>2
                     + (gradient1d (\<lambda>k. F ! i ! k) (ncols F) j)\<^sup>2))))"
  using assms by (simp add: kpz_step_def kpz_drift_eq np_add_array_tab)

lemma kpz_noise_step_eq:
  assumes "is_array F" "is_array N" "nrows N = nrows F" "ncols N = ncols F"
    "2 \<le> nrows F" "2 \<le> ncols F"
  shows "kpz_noise_step v l F N =
     Inr (tabulate2 (nrows F) (ncols F)
       (\<lambda>i j. F ! i ! j + (v * laplace F ! i ! j
            + l / 2 * ((gradient1d (\<lambda>k. F ! k ! j) (nrows F) i)\<^sup>2
                     + (gradient1d (\<lambda>k. F ! i ! k) (ncols F) j)\<^sup>2) + N ! i ! j)))"
  using assms
  by (simp add: kpz_noise_step_def kpz_drift_eq np_add_tab_array np_add_array_tab)

lemma ew_noise_step_eq:
  assumes "is_array F" "is_array N" "nrows N = nrows F" "ncols N = ncols F"
  shows "ew_noise_step v F N =
     Inr (tabulate2 (nrows F) (ncols F) (\<lambda>i j. F ! i ! j + (v * laplace F ! i ! j + N ! i ! j)))"
  using assms
  by (simp add: ew_noise_step_def np_scale_laplace np_add_tab_array np_add_array_tab)

lemma spec_step_kpz:
  assumes "2 \<le> nrows F" "2 \<le> ncols F"
  shows "spec_step v l F
           (tabulate2 (nrows F) (ncols F) (\<lambda>i j. gradient1d (\<lambda>k. F ! k ! j) (nrows F) i))
           (tabulate2 (nrows F) (ncols F) (\<lambda>i j. gradient1d (\<lambda>k. F ! i ! k) (ncols F) j)) N
         = tabulate2 (nrows F) (ncols F)
       (\<lambda>i j. F ! i ! j + (v * laplace F ! i ! j
            + l / 2 * ((gradient1d (\<lambda>k. F ! k ! j) (nrows F) i)\<^sup>2
                     + (gradient1d (\<lambda>k. F ! i ! k) (ncols F) j)\<^sup>2) + N ! i ! j))"
  unfolding spec_step_def
  by (rule tabulate2_cong) (simp add: tabulate2_nth)

lemma spec_step_ew:
  "spec_step v 0 F g0 g1 N
   = tabulate2 (nrows F) (ncols F) (\<lambda>i j. F ! i ! j + (v * laplace F ! i ! j + N ! i ! j))"
  unfolding spec_step_def
  by (rule tabulate2_cong) simp

lemma spec_step_zero_noise:
  "spec_step v l F g0 g1 (flat_field (nrows F) (ncols F) 0)
   = tabulate2 (nrows F) (ncols F)
       (\<lambda>i j. F ! i ! j + v * laplace F ! i ! j + (l / 2) * ((g0 ! i ! j)\<^sup>2 + (g1 ! i ! j)\<^sup>2))"
  unfolding spec_step_def
  by (rule tabulate2_cong) (simp add: flat_field_nth)

lemma is_array_2x2: "is_array [[a, b], [c, d]]"
  by (simp add: is_array_def ncols_def)

section \<open>Mass and flatness\<close>

lemma gradient1d_zero_const:
  assumes "2 \<le> n" "\<forall>i<n. gradient1d a n i = 0"
  shows "i < n \<Longrightarrow> a i = a 0"
proof (induction i rule: less_induct)
  case (less i)
  show ?case
  proof (cases "i < 2")
    case True
    have "gradient1d a n 0 = 0" using assms by simp
    then have a1: "a (Suc 0) = a 0" by (simp add: gradient1d_def)
    from True have "i = 0 \<or> i = Suc 0" by arith
    then show ?thesis using a1 by (elim disjE) simp_all
  next
    case False
    then have "i = Suc (Suc (i - 2))" by arith
    then obtain k where k: "i = Suc (Suc k)" ..
    with less.prems have kn: "Suc k < n" and ke: "Suc k \<noteq> n - 1" by arith+
    have "gradient1d a n (Suc k) = (a (Suc (Suc k)) - a k) / 2"
      unfolding gradient1d_def using ke by simp
    moreover have "gradient1d a n (Suc k) = 0" using assms(2) kn by blast
    ultimately have "a (Suc (Suc k)) = a k" by simp
    moreover have "k < i" "k < n" using k less.prems by arith+
    then have "a k = a 0" by (rule less.IH)
    ultimately show ?thesis unfolding k by simp
  qed
qed

lemma gradient1d_const_zero:
  assumes "2 \<le> n" "\<forall>i<n. a i = a 0" "i < n"
  shows "gradient1d a n i = 0"
proof -
  have c: "a k = a 0" if "k < n" for k using assms(2) that by blast
  have b: "1 < n" "n - 1 < n" "n - 2 < n" using assms(1) by arith+
  have e: "a 1 = a 0" "a (n - 1) = a 0" "a (n - 2) = a 0"
    using c [OF b(1)] c [OF b(2)] c [OF b(3)] by blast+
  show ?thesis
  proof (cases "i = 0 \<or> i = n - 1")
    case True
    then show ?thesis using e by (auto simp: gradient1d_def)
  next
    case False
    then have b2: "i + 1 < n" "i - 1 < n" using assms(3) by arith+
    have "a (i + 1) = a 0" "a (i - 1) = a 0"
      using c [OF b2(1)] c [OF b2(2)] by blast+
    then show ?thesis using False by (simp add: gradient1d_def)
  qed
qed

lemma is_flat_iff:
  assumes "is_array A" "0 < nrows A" "0 < ncols A"
  shows "is_flat A \<longleftrightarrow> (\<forall>i<nrows A. \<forall>j<ncols A. A ! i ! j = A ! 0 ! 0)"
proof -
  have hd: "hd (hd A) = A ! 0 ! 0"
    using assms by (cases A) (auto simp: nrows_def ncols_def hd_conv_nth)
  have len: "\<And>i. i < nrows A \<Longrightarrow> length (A ! i) = ncols A"
    using assms(1) by (simp add: is_array_row)
  show ?thesis
    unfolding is_flat_def list_all_length hd using len by (auto simp: nrows_def)
qed

lemma grad_sq_zero_iff_flat:
  assumes "is_array F" "2 \<le> nrows F" "2 \<le> ncols F"
  shows "(\<forall>i<nrows F. \<forall>j<ncols F.
            (gradient1d (\<lambda>k. F ! k ! j) (nrows F) i)\<^sup>2
          + (gradient1d (\<lambda>k. F ! i ! k) (ncols F) j)\<^sup>2 = 0) \<longleftrightarrow> is_flat F"
proof
  have pos: "0 < nrows F" "0 < ncols F" using assms(2,3) by arith+
  note flat = is_flat_iff [OF assms(1) pos]
  {
  assume z: "\<forall>i<nrows F. \<forall>j<ncols F.
            (gradient1d (\<lambda>k. F ! k ! j) (nrows F) i)\<^sup>2
          + (gradient1d (\<lambda>k. F ! i ! k) (ncols F) j)\<^sup>2 = 0"
  then have g0: "\<And>i j. i < nrows F \<Longrightarrow> j < ncols F \<Longrightarrow> gradient1d (\<lambda>k. F ! k ! j) (nrows F) i = 0"
    and g1: "\<And>i j. i < nrows F \<Longrightarrow> j < ncols F \<Longrightarrow> gradient1d (\<lambda>k. F ! i ! k) (ncols F) j = 0"
    by (simp_all add: sum_power2_eq_zero_iff)
  have "F ! i ! j = F ! 0 ! 0" if "i < nrows F" "j < ncols F" for i j
  proof -
    have "F ! i ! j = F ! i ! 0"
      using gradient1d_zero_const [of "ncols F" "\<lambda>k. F ! i ! k" j] assms(3) that g1 by simp
    also have "\<dots> = F ! 0 ! 0"
      using gradient1d_zero_const [of "nrows F" "\<lambda>k. F ! k ! 0" i] assms(2,3) that g0 by simp
    finally show ?thesis .
  qed
  then show "is_flat F" unfolding flat by blast
  }
  {
  assume "is_flat F"
  then have c: "\<And>i j. i < nrows F \<Longrightarrow> j < ncols F \<Longrightarrow> F ! i ! j = F ! 0 ! 0"
    unfolding flat by blast
  have "gradient1d (\<lambda>k. F ! k ! j) (nrows F) i = 0" if "i < nrows F" "j < ncols F" for i j
  proof (rule gradient1d_const_zero [OF assms(2) _ that(1)])
    have "0 < nrows F" using assms(2) by arith
    then have "F ! 0 ! j = F ! 0 ! 0" using that(2) c by blast
    moreover have "\<And>k. k < nrows F \<Longrightarrow> F ! k ! j = F ! 0 ! 0" using that(2) c by blast
    ultimately show "\<forall>k<nrows F. F ! k ! j = F ! 0 ! j" by metis
  qed
  moreover have "gradient1d (\<lambda>k. F ! i ! k) (ncols F) j = 0" if "i < nrows F" "j < ncols F" for i j
  proof (rule gradient1d_const_zero [OF assms(3) _ that(2)])
    have "0 < ncols F" using assms(3) by arith
    with that(1) have "F ! i ! 0 = F ! 0 ! 0" using c by blast
    moreover have "\<And>k. k < ncols F \<Longrightarrow> F ! i ! k = F ! 0 ! 0" using that(1) c by blast
    ultimately show "\<forall>k<ncols F. F ! i ! k = F ! i ! 0" by metis
  qed
  ultimately show "\<forall>i<nrows F. \<forall>j<ncols F.
            (gradient1d (\<lambda>k. F ! k ! j) (nrows F) i)\<^sup>2
          + (gradient1d (\<lambda>k. F ! i ! k) (ncols F) j)\<^sup>2 = 0"
    by simp
  }
qed

lemma sum_laplace_cells: "(\<Sum>i<nrows F. \<Sum>j<ncols F. laplace F ! i ! j) = 0"
proof -
  have "(\<Sum>i<nrows F. \<Sum>j<ncols F. laplace F ! i ! j) = np_sum (laplace F)"
    by (simp add: np_sum_array laplace_def ncols_tabulate2 ncols_empty)
  then show ?thesis by (simp add: np_sum_laplace)
qed

lemma kpz_step_mass:
  assumes "is_array F" "2 \<le> nrows F" "2 \<le> ncols F"
  shows "\<exists>G. kpz_step v l F = Inr G \<and>
             np_sum G = np_sum F + l / 2 * (\<Sum>i<nrows F. \<Sum>j<ncols F.
                 (gradient1d (\<lambda>k. F ! k ! j) (nrows F) i)\<^sup>2
               + (gradient1d (\<lambda>k. F ! i ! k) (ncols F) j)\<^sup>2)"
proof -
  have "np_sum (tabulate2 (nrows F) (ncols F)
       (\<lambda>i j. F ! i ! j + (v * laplace F ! i ! j
            + l / 2 * ((gradient1d (\<lambda>k. F ! k ! j) (nrows F) i)\<^sup>2
                     + (gradient1d (\<lambda>k. F ! i ! k) (ncols F) j)\<^sup>2))))
     = (\<Sum>i<nrows F. \<Sum>j<ncols F. F ! i ! j)
       + v * (\<Sum>i<nrows F. \<Sum>j<ncols F. laplace F ! i ! j)
       + l / 2 * (\<Sum>i<nrows F. \<Sum>j<ncols F.
                 (gradient1d (\<lambda>k. F ! k ! j) (nrows F) i)\<^sup>2
               + (gradient1d (\<lambda>k. F ! i ! k) (ncols F) j)\<^sup>2)"
    unfolding np_sum_tabulate2 sum.distrib sum_distrib_left [symmetric] by simp
  then show ?thesis
    using assms by (simp add: kpz_step_eq sum_laplace_cells np_sum_array)
qed

lemma kpz_step_grows:
  assumes "is_array F" "2 \<le> nrows F" "2 \<le> ncols F" "0 < l"
  shows "\<exists>G. kpz_step v l F = Inr G \<and> np_sum F \<le> np_sum G \<and>
             (np_sum G = np_sum F \<longleftrightarrow> is_flat F)"
proof -
  let ?g2 = "\<lambda>i j. (gradient1d (\<lambda>k. F ! k ! j) (nrows F) i)\<^sup>2
               + (gradient1d (\<lambda>k. F ! i ! k) (ncols F) j)\<^sup>2"
  let ?S = "\<Sum>i<nrows F. \<Sum>j<ncols F. ?g2 i j"
  obtain G where G: "kpz_step v l F = Inr G" "np_sum G = np_sum F + l / 2 * ?S"
    using kpz_step_mass [OF assms(1-3)] by blast
  have nonneg: "0 \<le> ?S" by (intro sum_nonneg) simp
  have "?S = 0 \<longleftrightarrow> (\<forall>i<nrows F. (\<Sum>j<ncols F. ?g2 i j) = 0)"
    by (subst sum_nonneg_eq_0_iff) (auto intro!: sum_nonneg)
  also have "\<dots> \<longleftrightarrow> (\<forall>i<nrows F. \<forall>j<ncols F. ?g2 i j = 0)"
    by (subst sum_nonneg_eq_0_iff) auto
  also have "\<dots> \<longleftrightarrow> is_flat F"
    using assms(1-3) by (rule grad_sq_zero_iff_flat)
  finally have S0: "?S = 0 \<longleftrightarrow> is_flat F" .
  have "np_sum F \<le> np_sum G" using G(2) nonneg assms(4) by simp
  moreover have "np_sum G = np_sum F \<longleftrightarrow> is_flat F"
    using G(2) S0 assms(4) by simp
  ultimately show ?thesis using G(1) by blast
qed

lemma ew_step_mass:
  assumes "is_array F"
  shows "\<exists>G. ew_step v F = Inr G \<and> np_sum G = np_sum F"
proof -
  have "np_sum (tabulate2 (nrows F) (ncols F) (\<lambda>i j. F ! i ! j + v * laplace F ! i ! j))
        = (\<Sum>i<nrows F. \<Sum>j<ncols F. F ! i ! j) + v * (\<Sum>i<nrows F. \<Sum>j<ncols F. laplace F ! i ! j)"
    by (simp add: np_sum_tabulate2 sum.distrib sum_distrib_left)
  then show ?thesis
    using assms by (simp add: ew_step_eq sum_laplace_cells np_sum_array)
qed

section \<open>Conservation of mass by the Edwards-Wilkinson step\<close>

lemma ncols_flat_field_any: "(m = 0 \<Longrightarrow> n = 0) \<Longrightarrow> ncols (flat_field m n c) = n"
  by (simp add: flat_field_tabulate2 ncols_tabulate2)

lemma ew_noise_step_zero:
  assumes "is_array F"
  shows "ew_noise_step v F (flat_field (nrows F) (ncols F) 0) = ew_step v F"
proof -
  have nc: "ncols (flat_field (nrows F) (ncols F) 0) = ncols F"
    by (rule ncols_flat_field_any) (rule ncols_empty)
  have "tabulate2 (nrows F) (ncols F)
          (\<lambda>i j. F ! i ! j + (v * laplace F ! i ! j + flat_field (nrows F) (ncols F) 0 ! i ! j))
        = tabulate2 (nrows F) (ncols F) (\<lambda>i j. F ! i ! j + v * laplace F ! i ! j)"
    by (rule tabulate2_cong) (simp add: flat_field_nth)
  then show ?thesis using assms nc by (simp add: ew_noise_step_eq ew_step_eq)
qed

lemma kpz_noise_step_zero:
  assumes "is_array F" "2 \<le> nrows F" "2 \<le> ncols F"
  shows "kpz_noise_step v 0 F (flat_field (nrows F) (ncols F) 0) = ew_step v F"
proof -
  have nc: "ncols (flat_field (nrows F) (ncols F) 0) = ncols F"
    by (rule ncols_flat_field_any) (rule ncols_empty)
  have "tabulate2 (nrows F) (ncols F)
          (\<lambda>i j. F ! i ! j + (v * laplace F ! i ! j
            + 0 / 2 * ((gradient1d (\<lambda>k. F ! k ! j) (nrows F) i)\<^sup>2
                     + (gradient1d (\<lambda>k. F ! i ! k) (ncols F) j)\<^sup>2)
            + flat_field (nrows F) (ncols F) 0 ! i ! j))
        = tabulate2 (nrows F) (ncols F) (\<lambda>i j. F ! i ! j + v * laplace F ! i ! j)"
    by (rule tabulate2_cong) (simp add: flat_field_nth)
  then show ?thesis using assms nc by (simp add: kpz_noise_step_eq ew_step_eq)
qed

text \<open>
  Claim C1. One iteration of the Edwards-Wilkinson loop (no non-linear term, no noise)
  returns a field, and the sum of its cells equals the sum of the cells of the field it
  started from, for every rectangular field (every \<open>L\<times>L\<close> field among them) and every
  surface tension \<open>v\<close>, in exact arithmetic. The same holds for the loop with noise when
  the noise slice is all zero, and for the Kardar-Parisi-Zhang loop with \<open>l = 0\<close> and an
  all-zero noise slice wherever it returns a field (at least two rows and two columns).
\<close>

theorem ew_step_conserves_mass:
  assumes "is_array F"
  shows "(\<exists>G. ew_step v F = Inr G \<and> np_sum G = np_sum F)
       \<and> (\<exists>G. ew_noise_step v F (flat_field (nrows F) (ncols F) 0) = Inr G \<and> np_sum G = np_sum F)
       \<and> (2 \<le> nrows F \<and> 2 \<le> ncols F \<longrightarrow>
            (\<exists>G. kpz_noise_step v 0 F (flat_field (nrows F) (ncols F) 0) = Inr G \<and> np_sum G = np_sum F))"
  using assms ew_step_mass [of F v] by (simp add: ew_noise_step_zero kpz_noise_step_zero)

theorem ew_step_conserves_mass_witness:
  "is_array [[1, 2], [3, 7]]
   \<and> (\<exists>G. ew_step (1 / 10) [[1, 2], [3, 7]] = Inr G \<and> np_sum G = np_sum [[1, 2], [3, 7]])
   \<and> (\<exists>G. kpz_noise_step (1 / 10) 0 [[1, 2], [3, 7]] (flat_field 2 2 0) = Inr G
           \<and> np_sum G = np_sum [[1, 2], [3, 7]])"
proof -
  have n: "nrows [[1, 2], [3, 7]] = 2" "ncols [[1, 2], [3, 7]] = 2"
    by (simp_all add: nrows_def ncols_def)
  have a: "is_array [[1, 2], [3, 7]]" by (rule is_array_2x2)
  show ?thesis
    using ew_step_conserves_mass [OF a, of "1 / 10", unfolded n] a by simp
qed

section \<open>The update rule\<close>

text \<open>
  Claim C2, as amended. For every field \<open>F\<close> with at least two rows and two columns, every
  \<open>v\<close>, every \<open>l\<close> and every noise slice \<open>N\<close> of the shape of \<open>F\<close>, the Kardar-Parisi-Zhang
  iterations compute exactly \<open>F + v\<cdot>laplace F + (l/2)\<cdot>(g0\<^sup>2 + g1\<^sup>2) + N\<close>, where \<open>g0\<close> and
  \<open>g1\<close> are the two arrays returned by \<open>np.gradient\<close> (and the same without \<open>N\<close> in the
  loop without noise). The Edwards-Wilkinson iterations compute the rule with \<open>l = 0\<close>,
  whatever the gradient arrays are, for every rectangular field.
\<close>

theorem update_rule:
  assumes "is_array F" "is_array N" "nrows N = nrows F" "ncols N = ncols F"
  shows "(2 \<le> nrows F \<and> 2 \<le> ncols F \<longrightarrow>
            (\<exists>g0 g1. np_gradient F = Inr (g0, g1)
               \<and> kpz_noise_step v l F N = Inr (spec_step v l F g0 g1 N)
               \<and> kpz_step v l F = Inr (spec_step v l F g0 g1 (flat_field (nrows F) (ncols F) 0))))
       \<and> ew_noise_step v F N = Inr (spec_step v 0 F g0' g1' N)
       \<and> ew_step v F = Inr (spec_step v 0 F g0' g1' (flat_field (nrows F) (ncols F) 0))"
proof (intro conjI impI)
  assume big: "2 \<le> nrows F \<and> 2 \<le> ncols F"
  let ?g0 = "tabulate2 (nrows F) (ncols F) (\<lambda>i j. gradient1d (\<lambda>k. F ! k ! j) (nrows F) i)"
  let ?g1 = "tabulate2 (nrows F) (ncols F) (\<lambda>i j. gradient1d (\<lambda>k. F ! i ! k) (ncols F) j)"
  have "np_gradient F = Inr (?g0, ?g1)" using big by (simp add: np_gradient_eq)
  moreover have "kpz_noise_step v l F N = Inr (spec_step v l F ?g0 ?g1 N)"
    using assms big by (simp add: kpz_noise_step_eq spec_step_kpz)
  moreover have "kpz_step v l F = Inr (spec_step v l F ?g0 ?g1 (flat_field (nrows F) (ncols F) 0))"
  proof -
    have "spec_step v l F ?g0 ?g1 (flat_field (nrows F) (ncols F) 0)
      = tabulate2 (nrows F) (ncols F)
       (\<lambda>i j. F ! i ! j + (v * laplace F ! i ! j
            + l / 2 * ((gradient1d (\<lambda>k. F ! k ! j) (nrows F) i)\<^sup>2
                     + (gradient1d (\<lambda>k. F ! i ! k) (ncols F) j)\<^sup>2)))"
      unfolding spec_step_zero_noise by (rule tabulate2_cong) (simp add: tabulate2_nth)
    then show ?thesis using assms(1) big by (simp add: kpz_step_eq)
  qed
  ultimately show "\<exists>g0 g1. np_gradient F = Inr (g0, g1)
               \<and> kpz_noise_step v l F N = Inr (spec_step v l F g0 g1 N)
               \<and> kpz_step v l F = Inr (spec_step v l F g0 g1 (flat_field (nrows F) (ncols F) 0))"
    by blast
next
  show "ew_noise_step v F N = Inr (spec_step v 0 F g0' g1' N)"
    using assms by (simp add: ew_noise_step_eq spec_step_ew)
next
  have "spec_step v 0 F g0' g1' (flat_field (nrows F) (ncols F) 0)
        = tabulate2 (nrows F) (ncols F) (\<lambda>i j. F ! i ! j + v * laplace F ! i ! j)"
    unfolding spec_step_zero_noise by simp
  then show "ew_step v F = Inr (spec_step v 0 F g0' g1' (flat_field (nrows F) (ncols F) 0))"
    using assms(1) by (simp add: ew_step_eq)
qed

theorem update_rule_witness:
  "is_array [[1, 2], [3, 7]] \<and> is_array [[1, - 1], [- 1, 1]]
   \<and> (\<exists>g0 g1. np_gradient [[1, 2], [3, 7]] = Inr (g0, g1)
         \<and> kpz_noise_step (1 / 10) (1 / 20) [[1, 2], [3, 7]] [[1, - 1], [- 1, 1]]
             = Inr (spec_step (1 / 10) (1 / 20) [[1, 2], [3, 7]] g0 g1 [[1, - 1], [- 1, 1]]))"
  using update_rule [of "[[1, 2], [3, 7]]" "[[1, - 1], [- 1, 1]]" "1 / 10" "1 / 20"]
  by (simp add: is_array_2x2 nrows_def ncols_def) blast

text \<open>
  The claim as stated, for every field, fails on a field of a single cell: \<open>np.gradient\<close>
  raises there and no new field is computed.
\<close>

theorem update_rule_fails_on_single_cell:
  "kpz_noise_step (1 / 10) (1 / 20) [[5]] [[1]] = Inl ValueError"
  by (simp add: kpz_noise_step_def kpz_drift_def np_gradient_def nrows_def)

section \<open>The boundary of the Laplacian\<close>

text \<open>
  Claim C3, as amended. At every cell the Laplacian is the 5-point stencil in which a
  neighbour outside the grid is replaced by the edge cell itself (mirror boundary, the
  default mode \<open>reflect\<close>); it agrees with the periodic stencil at the cells that are not
  on an edge.
\<close>

theorem laplace_five_point_mirror:
  assumes "i < nrows A" "j < ncols A"
  shows "laplace A ! i ! j =
           (if i = 0 then A ! i ! j else A ! (i - 1) ! j)
         + (if Suc i = nrows A then A ! i ! j else A ! Suc i ! j)
         + (if j = 0 then A ! i ! j else A ! i ! (j - 1))
         + (if Suc j = ncols A then A ! i ! j else A ! i ! Suc j)
         - 4 * A ! i ! j
       \<and> (0 < i \<and> Suc i < nrows A \<and> 0 < j \<and> Suc j < ncols A
            \<longrightarrow> laplace A ! i ! j = periodic_laplace A ! i ! j)"
proof
  show "laplace A ! i ! j =
           (if i = 0 then A ! i ! j else A ! (i - 1) ! j)
         + (if Suc i = nrows A then A ! i ! j else A ! Suc i ! j)
         + (if j = 0 then A ! i ! j else A ! i ! (j - 1))
         + (if Suc j = ncols A then A ! i ! j else A ! i ! Suc j)
         - 4 * A ! i ! j"
    using assms by (rule laplace_mirror_stencil)
next
  show "0 < i \<and> Suc i < nrows A \<and> 0 < j \<and> Suc j < ncols A
            \<longrightarrow> laplace A ! i ! j = periodic_laplace A ! i ! j"
  proof
    assume int: "0 < i \<and> Suc i < nrows A \<and> 0 < j \<and> Suc j < ncols A"
    then have "i + nrows A - 1 = (i - 1) + nrows A" "j + ncols A - 1 = (j - 1) + ncols A"
      by arith+
    then have "(i + nrows A - 1) mod nrows A = (i - 1) mod nrows A"
      "(j + ncols A - 1) mod ncols A = (j - 1) mod ncols A"
      by (simp_all only: mod_add_self2)
    moreover have "i - 1 < nrows A" "j - 1 < ncols A" using int by arith+
    ultimately have "(i + nrows A - 1) mod nrows A = i - 1" "(j + ncols A - 1) mod ncols A = j - 1"
      by (simp_all only: mod_less)
    with int assms show "laplace A ! i ! j = periodic_laplace A ! i ! j"
      by (simp add: laplace_mirror_stencil periodic_laplace_def tabulate2_nth)
  qed
qed

theorem laplace_five_point_mirror_witness:
  "laplace [[1, 0, 0], [0, 0, 0], [0, 0, 0]] ! 0 ! 0 = 1 + 0 + 1 + 0 - 4 * 1"
  using laplace_five_point_mirror [of 0 "[[1, 0, 0], [0, 0, 0], [0, 0, 0]]" 0]
  by (simp add: nrows_def ncols_def)

text \<open>
  The claim as stated fails at a corner: the periodic stencil reads the opposite edges,
  the notebook's Laplacian reads the corner itself.
\<close>

theorem laplace_not_periodic:
  "laplace [[1, 0, 0], [0, 0, 0], [0, 0, 0]] ! 0 ! 0 = - 2 \<and>
   periodic_laplace [[1, 0, 0], [0, 0, 0], [0, 0, 0]] ! 0 ! 0 = - 4"
  by code_simp

section \<open>Flat fields and one raised cell\<close>

text \<open>
  Claim C8, as amended. In exact arithmetic: on every flat field the Laplacian is zero at
  every cell and the Edwards-Wilkinson step returns the field unchanged; when the field
  has more than one cell and one cell is raised, the Laplacian is negative at that cell
  and positive at each of its neighbours in the grid; and after raising a cell of any
  flat field the step leaves the sum of all cells equal to the sum before the step.
\<close>

theorem flat_field_step:
  "(\<forall>i<m. \<forall>j<n. laplace (flat_field m n c) ! i ! j = 0)
   \<and> ew_step v (flat_field m n c) = Inr (flat_field m n c)
   \<and> (p < m \<and> q < n \<and> (2 \<le> m \<or> 2 \<le> n) \<and> c < h \<longrightarrow>
        laplace (set_cell (flat_field m n c) p q h) ! p ! q < 0
        \<and> (\<forall>i<m. \<forall>j<n. adjacent i j p q \<longrightarrow>
              0 < laplace (set_cell (flat_field m n c) p q h) ! i ! j))
   \<and> (\<exists>G. ew_step v (set_cell (flat_field m n c) p q h) = Inr G
          \<and> np_sum G = np_sum (set_cell (flat_field m n c) p q h))"
  by (auto simp: laplace_flat_zero ew_step_flat laplace_bumped_at laplace_bumped_neighbour
      intro!: ew_step_mass is_array_set_cell)

theorem flat_field_step_witness:
  "laplace (flat_field 4 4 5) ! 0 ! 3 = 0
   \<and> ew_step (1 / 10) (flat_field 4 4 5) = Inr (flat_field 4 4 5)
   \<and> ew_step (1 / 10) (flat_field 1 1 5) = Inr (flat_field 1 1 5)
   \<and> laplace (set_cell (flat_field 4 4 5) 1 2 10) ! 1 ! 2 < 0
   \<and> 0 < laplace (set_cell (flat_field 4 4 5) 1 2 10) ! 1 ! 3
   \<and> (\<exists>G. ew_step (1 / 10) (set_cell (flat_field 4 4 5) 1 2 10) = Inr G
              \<and> np_sum G = np_sum (set_cell (flat_field 4 4 5) 1 2 10))"
proof -
  note t = flat_field_step [of 4 4 5 "1 / 10" 1 2 10]
  note u = flat_field_step [of 1 1 5 "1 / 10" 0 0 10]
  have h: "(1::nat) < 4 \<and> (2::nat) < 4 \<and> (2 \<le> (4::nat) \<or> 2 \<le> (4::nat)) \<and> (5::real) < 10"
    by simp
  have b: "(0::nat) < 4" "(3::nat) < 4" "(1::nat) < 4" by simp_all
  have "laplace (flat_field 4 4 5) ! 0 ! 3 = 0"
    using t b by blast
  moreover have "adjacent 1 3 1 2" by (simp add: adjacent_def)
  then have "0 < laplace (set_cell (flat_field 4 4 5) 1 2 10) ! 1 ! 3"
    using t h b by blast
  moreover have "laplace (set_cell (flat_field 4 4 5) 1 2 10) ! 1 ! 2 < 0"
    using t h by blast
  moreover have "ew_step (1 / 10) (flat_field 1 1 5) = Inr (flat_field 1 1 5)"
    using u by blast
  ultimately show ?thesis using t by blast
qed

text \<open>
  The claim as stated, for every constant field, fails on the field of a single cell:
  raising its only cell leaves the Laplacian there at zero.
\<close>

theorem single_cell_laplace_not_negative:
  "laplace (set_cell (flat_field 1 1 5) 0 0 10) ! 0 ! 0 = 0"
  by code_simp

section \<open>Growth of mass under the non-linear term\<close>

text \<open>
  Claim C10, as amended. In exact arithmetic: for every field with at least two rows and
  two columns, every \<open>v\<close> and every \<open>l > 0\<close>, one Kardar-Parisi-Zhang iteration without
  noise returns a field whose sum is at least the sum of the field it started from, with
  equality exactly when the field is flat.
\<close>

theorem kpz_step_never_loses_mass:
  assumes "is_array F" "2 \<le> nrows F" "2 \<le> ncols F" "0 < l"
  shows "\<exists>G. kpz_step v l F = Inr G \<and> np_sum F \<le> np_sum G \<and>
             (np_sum G = np_sum F \<longleftrightarrow> is_flat F)"
  using assms by (rule kpz_step_grows)

theorem kpz_step_never_loses_mass_witness:
  "is_array [[1, 2], [3, 7]] \<and> 2 \<le> nrows [[1, 2], [3, 7]] \<and> 2 \<le> ncols [[1, 2], [3, 7]]
   \<and> (\<exists>G. kpz_step (1 / 10) (1 / 20) [[1, 2], [3, 7]] = Inr G \<and> np_sum [[1, 2], [3, 7]] \<le> np_sum G
           \<and> (np_sum G = np_sum [[1, 2], [3, 7]] \<longleftrightarrow> is_flat [[1, 2], [3, 7]]))"
  using kpz_step_never_loses_mass [of "[[1, 2], [3, 7]]" "1 / 20" "1 / 10"]
  by (simp add: is_array_2x2 nrows_def ncols_def)

text \<open>
  The claim as stated, for every field, fails on a field of a single cell, which is
  flat: the iteration raises and there is no sum to compare.
\<close>

theorem kpz_step_fails_on_single_cell:
  "is_flat [[5]] \<and> kpz_step (1 / 10) (1 / 20) [[5]] = Inl ValueError"
  by (simp add: is_flat_def kpz_step_def kpz_drift_def np_gradient_def nrows_def)

section \<open>Shuffling permutes\<close>

lemma shuffle_loop_mset:
  assumes "interval_ok iv"
  shows "k < length x \<or> k = 0 \<Longrightarrow> mset (fst (shuffle_loop iv k g x)) = mset x"
proof (induction k arbitrary: g x)
  case 0
  then show ?case by simp
next
  case (Suc k)
  obtain j g' where d: "iv g (Suc k) = (j, g')" by (cases "iv g (Suc k)")
  have "fst (iv g (Suc k)) \<le> Suc k" using assms by (simp add: interval_ok_def)
  with d have j: "j \<le> Suc k" by simp
  from Suc.prems have k: "Suc k < length x" by simp
  with j have jl: "j < length x" by arith
  let ?y = "x[Suc k := x ! j, j := x ! Suc k]"
  have "mset ?y = mset x" using jl k by (rule mset_swap)
  moreover have "k < length ?y \<or> k = 0" using k by simp
  then have "mset (fst (shuffle_loop iv k g' ?y)) = mset ?y" by (rule Suc.IH)
  ultimately show ?case using d by simp
qed

lemma shuffle_mset:
  assumes "interval_ok iv"
  shows "mset (fst (shuffle iv g x)) = mset x"
  unfolding shuffle_def
proof (rule shuffle_loop_mset [OF assms])
  show "length x - 1 < length x \<or> length x - 1 = 0" by arith
qed

lemma shuffle_sum:
  fixes x :: "real list"
  assumes "interval_ok iv"
  shows "sum_list (fst (shuffle iv g x)) = sum_list x"
proof -
  have "sum_mset (mset (fst (shuffle iv g x))) = sum_mset (mset x)"
    using assms by (simp add: shuffle_mset)
  then show ?thesis by (simp only: sum_mset_sum_list)
qed

lemma shuffle_length:
  "interval_ok iv \<Longrightarrow> length (fst (shuffle iv g x)) = length x"
  using shuffle_mset [of iv g x] by (metis size_mset)

lemma concat_unflatten: "length xs = m * n \<Longrightarrow> concat (unflatten m n xs) = xs"
proof (induction m arbitrary: xs)
  case 0
  then show ?case by simp
next
  case (Suc m)
  then have "length (drop n xs) = m * n" by simp
  then have "concat (unflatten m n (drop n xs)) = drop n xs" by (rule Suc.IH)
  then show ?case by simp
qed

lemma np_sum_concat: "np_sum A = sum_list (concat A)"
  unfolding np_sum_def by (induction A) simp_all

lemma np_sum_unflatten: "length xs = m * n \<Longrightarrow> np_sum (unflatten m n xs) = sum_list xs"
  by (simp add: np_sum_concat concat_unflatten)

lemma length_unflatten [simp]: "length (unflatten m n xs) = m"
  by (induction m arbitrary: xs) simp_all

lemma np_sum3_concat: "np_sum3 B = sum_list (flat3 B)"
  by (induction B) (simp_all add: np_sum3_def flat3_def np_sum_concat)

lemma unflatten_rows: "length xs = m * n \<Longrightarrow> r \<in> set (unflatten m n xs) \<Longrightarrow> length r = n"
proof (induction m arbitrary: xs)
  case 0
  then show ?case by simp
next
  case (Suc m)
  from Suc.prems(1) have l: "length (drop n xs) = m * n" by simp
  from Suc.prems(2) have "r = take n xs \<or> r \<in> set (unflatten m n (drop n xs))" by simp
  then show ?case
  proof
    assume "r = take n xs"
    then show ?thesis using Suc.prems(1) by simp
  next
    assume "r \<in> set (unflatten m n (drop n xs))"
    with l show ?thesis by (rule Suc.IH)
  qed
qed

lemma flat3_unflatten3:
  assumes "length xs = t * (m * n)"
  shows "flat3 (unflatten3 t m n xs) = xs"
proof -
  have "map (\<lambda>r. concat (unflatten m n r)) (unflatten t (m * n) xs) = unflatten t (m * n) xs"
  proof (rule map_idI)
    fix r assume "r \<in> set (unflatten t (m * n) xs)"
    with assms have "length r = m * n" by (rule unflatten_rows)
    then show "concat (unflatten m n r) = r" by (rule concat_unflatten)
  qed
  then have "map concat (unflatten3 t m n xs) = unflatten t (m * n) xs"
    by (simp add: unflatten3_def comp_def)
  then show ?thesis using assms by (simp add: flat3_def concat_unflatten)
qed

lemma np_sum3_unflatten3:
  "length xs = t * (m * n) \<Longrightarrow> np_sum3 (unflatten3 t m n xs) = sum_list xs"
  by (simp add: np_sum3_concat flat3_unflatten3)

lemma half_signed_eq:
  "set_rows_from k c (neg_ones m n) = replicate (min k m) (replicate n (- 1)) @ replicate (m - k) (replicate n c)"
  by (simp add: set_rows_from_def neg_ones_def min.commute)

lemma length_concat_replicate: "length (concat (replicate a (replicate n (c::real)))) = a * n"
  by (induction a) simp_all

lemma sum_concat_replicate: "sum_list (concat (replicate a (replicate n (c::real)))) = of_nat a * (of_nat n * c)"
  by (induction a) (simp_all add: sum_list_replicate algebra_simps)

lemma length_half_signed:
  "length (flat2 (set_rows_from k c (neg_ones m n))) = m * n"
proof -
  have "min k m + (m - k) = m" by arith
  then have "min k m * n + (m - k) * n = m * n" by (metis add_mult_distrib)
  then show ?thesis
    by (simp add: flat2_def half_signed_eq length_concat_replicate)
qed

lemma sum_half_signed:
  assumes "even L"
  shows "sum_list (flat2 (set_rows_from (L div 2) 1 (neg_ones L L))) = 0"
proof -
  have "min (L div 2) L = L div 2" by simp
  moreover have "L - L div 2 = L div 2" using assms by (elim evenE) simp
  ultimately show ?thesis
    by (simp add: flat2_def half_signed_eq sum_concat_replicate)
qed

lemma flat3_replicate:
  "flat3 (replicate t A) = concat (replicate t (flat2 A))"
  by (induction t) (simp_all add: flat3_def flat2_def)

lemma sum_concat_replicate_list: "sum_list (concat (replicate t (xs::real list))) = of_nat t * sum_list xs"
  by (induction t) (simp_all add: algebra_simps)

lemma length_concat_replicate_list: "length (concat (replicate t xs)) = t * length xs"
  by (induction t) simp_all

lemma digit_interval_ok: "interval_ok (random_interval digit_lib)"
  by (simp add: interval_ok_def digit_lib_def digit_interval_def)

lemma choice_after:
  "choice (fst (cell_noble_question lib L seed s))
   = unflatten L L (fst (shuffle (random_interval lib) (default_rng lib seed)
        (flat2 (set_rows_from (L div 2) 1 (neg_ones L L)))))"
  by (simp add: cell_noble_question_def Let_def)

lemma noise_after:
  "noise (fst (make_noise lib L T seed s))
   = take 1 (replicate T (set_rows_from (L div 2) 1 (neg_ones L L)))
     @ unflatten3 (T - 1) L L (fst (shuffle (random_interval lib) (default_rng lib seed)
         (concat (replicate (T - 1) (flat2 (set_rows_from (L div 2) 1 (neg_ones L L)))))))"
  by (simp add: make_noise_def Let_def flat3_replicate)

lemma choice_mset:
  assumes "interval_ok (random_interval lib)"
  shows "mset (flat2 (choice (fst (cell_noble_question lib L seed s))))
         = mset (flat2 (set_rows_from (L div 2) 1 (neg_ones L L)))"
proof -
  let ?x = "flat2 (set_rows_from (L div 2) 1 (neg_ones L L))"
  let ?y = "fst (shuffle (random_interval lib) (default_rng lib seed) ?x)"
  have "length ?y = L * L" using assms by (simp add: shuffle_length length_half_signed)
  then have "flat2 (unflatten L L ?y) = ?y" by (simp add: flat2_def concat_unflatten)
  then show ?thesis using assms by (simp add: choice_after shuffle_mset)
qed

lemma choice_sum:
  assumes "interval_ok (random_interval lib)" "even L"
  shows "np_sum (choice (fst (cell_noble_question lib L seed s))) = 0"
proof -
  have "sum_mset (mset (flat2 (choice (fst (cell_noble_question lib L seed s)))))
        = sum_mset (mset (flat2 (set_rows_from (L div 2) 1 (neg_ones L L))))"
    using assms(1) by (simp add: choice_mset)
  then have "sum_list (flat2 (choice (fst (cell_noble_question lib L seed s))))
        = sum_list (flat2 (set_rows_from (L div 2) 1 (neg_ones L L)))"
    by (simp only: sum_mset_sum_list)
  then show ?thesis using assms(2) by (simp add: np_sum_concat sum_half_signed flip: flat2_def)
qed

lemma shuffled_block_sum:
  assumes "interval_ok (random_interval lib)" "even L"
  shows "np_sum3 (unflatten3 t L L (fst (shuffle (random_interval lib) g
           (concat (replicate t (flat2 (set_rows_from (L div 2) 1 (neg_ones L L)))))))) = 0"
proof -
  let ?x = "concat (replicate t (flat2 (set_rows_from (L div 2) 1 (neg_ones L L))))"
  let ?y = "fst (shuffle (random_interval lib) g ?x)"
  have "length ?y = t * (L * L)"
    using assms(1) by (simp add: shuffle_length length_concat_replicate_list length_half_signed)
  then have "np_sum3 (unflatten3 t L L ?y) = sum_list ?y" by (rule np_sum3_unflatten3)
  also have "\<dots> = sum_list ?x" using assms(1) by (rule shuffle_sum)
  also have "\<dots> = 0" using assms(2) by (simp add: sum_concat_replicate_list sum_half_signed)
  finally show ?thesis .
qed

lemma consumed_noise_sum:
  assumes "interval_ok (random_interval lib)" "even L"
  shows "np_sum3 (drop 1 (noise (fst (make_noise lib L T seed s)))) = 0"
proof (cases T)
  case 0
  then show ?thesis by (simp add: noise_after np_sum3_def unflatten3_def)
next
  case (Suc t)
  then have "drop 1 (noise (fst (make_noise lib L T seed s)))
    = unflatten3 t L L (fst (shuffle (random_interval lib) (default_rng lib seed)
         (concat (replicate t (flat2 (set_rows_from (L div 2) 1 (neg_ones L L)))))))"
    by (simp add: noise_after)
  then show ?thesis using assms by (simp add: shuffled_block_sum)
qed

lemma whole_noise_sum:
  assumes "interval_ok (random_interval lib)" "even L"
  shows "np_sum3 (noise (fst (make_noise lib L T seed s))) = 0"
proof (cases T)
  case 0
  then show ?thesis by (simp add: noise_after np_sum3_def unflatten3_def)
next
  case (Suc t)
  have "np_sum (set_rows_from (L div 2) 1 (neg_ones L L)) = 0"
    using assms(2) sum_half_signed [of L] by (simp add: np_sum_concat flat2_def)
  moreover have "np_sum3 (A # B) = np_sum A + np_sum3 B" for A B by (simp add: np_sum3_def)
  ultimately show ?thesis using Suc assms by (simp add: noise_after shuffled_block_sum)
qed

section \<open>The bounded noise sums to zero as a whole\<close>

text \<open>
  Claim C5. For even \<open>L\<close>, every generator whose bounded draws stay in range and every
  seed, the shuffle only permutes the entries of the array that is half \<open>-1\<close> and half
  \<open>+1\<close>, so the shuffled \<open>choice\<close> array sums to exactly zero, and so does the whole
  \<open>noise\<close> array of the later cells.
\<close>

theorem bounded_noise_total_zero:
  assumes "interval_ok (random_interval lib)" "even L"
  shows "mset (flat2 (choice (fst (cell_noble_question lib L seed s))))
           = mset (flat2 (set_rows_from (L div 2) 1 (neg_ones L L)))
       \<and> np_sum (choice (fst (cell_noble_question lib L seed s))) = 0
       \<and> np_sum3 (noise (fst (make_noise lib L T seed s))) = 0"
  using assms by (simp add: choice_mset choice_sum whole_noise_sum)

theorem bounded_noise_total_zero_witness:
  "interval_ok (random_interval digit_lib) \<and> even (2::nat)
   \<and> np_sum (choice (fst (cell_noble_question digit_lib 2 9 no_globals))) = 0
   \<and> np_sum3 (noise (fst (make_noise digit_lib 2 3 9 no_globals))) = 0"
  using bounded_noise_total_zero [of digit_lib 2 9 no_globals 3]
  by (simp add: digit_interval_ok)

section \<open>The noise slices that the loops consume\<close>

text \<open>
  Claim C4, as amended. For even \<open>L\<close> and every seed, the slices \<open>noise[1], \<dots>, noise[T-1]\<close>
  that the time loop consumes sum to exactly zero taken together; a single slice sums
  to zero when it is the only one consumed (\<open>T = 2\<close>).
\<close>

theorem consumed_noise_total_zero:
  assumes "interval_ok (random_interval lib)" "even L"
  shows "np_sum3 (drop 1 (noise (fst (make_noise lib L T seed s)))) = 0
       \<and> (T = 2 \<longrightarrow> np_sum (noise (fst (make_noise lib L T seed s)) ! 1) = 0)"
proof
  show z: "np_sum3 (drop 1 (noise (fst (make_noise lib L T seed s)))) = 0"
    using assms by (rule consumed_noise_sum)
  show "T = 2 \<longrightarrow> np_sum (noise (fst (make_noise lib L T seed s)) ! 1) = 0"
  proof
    assume T: "T = 2"
    have "length (noise (fst (make_noise lib L T seed s))) = 2"
      unfolding noise_after T by (simp add: unflatten3_def)
    then obtain A B where "noise (fst (make_noise lib L T seed s)) = [A, B]"
      by (metis (no_types) length_0_conv length_Suc_conv numeral_2_eq_2)
    with z show "np_sum (noise (fst (make_noise lib L T seed s)) ! 1) = 0"
      by (simp add: np_sum3_def)
  qed
qed

theorem consumed_noise_total_zero_witness:
  "interval_ok (random_interval digit_lib) \<and> even (2::nat)
   \<and> np_sum3 (drop 1 (noise (fst (make_noise digit_lib 2 2 3 no_globals)))) = 0
   \<and> np_sum (noise (fst (make_noise digit_lib 2 2 3 no_globals)) ! 1) = 0"
  using consumed_noise_total_zero [of digit_lib 2 2 3 no_globals]
  by (simp add: digit_interval_ok)

text \<open>
  The claim as stated, for each slice, fails: the shuffle runs over the flattened block
  \<open>noise[1:]\<close> and moves entries from one slice to another. With \<open>L = 2\<close>, \<open>T = 3\<close> and
  the draws \<open>1, 1, 0, 0, 0, 0, 0\<close> (for \<open>i = 7, \<dots>, 1\<close>), slice 1 ends with three entries
  \<open>+1\<close> and one \<open>-1\<close> and sums to 2.
\<close>

theorem noise_slice_not_zero_sum:
  "noise (fst (make_noise digit_lib 2 3 9 no_globals)) ! 1 = [[1, 1], [1, - 1]]
   \<and> np_sum (noise (fst (make_noise digit_lib 2 3 9 no_globals)) ! 1) = 2"
  by code_simp

section \<open>Running the time loops\<close>

lemma for_range_ok:
  assumes "\<And>i s. i \<in> set js \<Longrightarrow> P s \<Longrightarrow> \<exists>s'. body i s = (s', None) \<and> P s'" "P s"
  shows "\<exists>s'. for_range js body s = (s', None) \<and> P s'"
  using assms
proof (induction js arbitrary: s)
  case Nil
  then show ?case by simp
next
  case (Cons j js)
  from Cons.prems obtain s1 where s1: "body j s = (s1, None)" "P s1" by (meson list.set_intros(1))
  have "\<exists>s'. for_range js body s1 = (s', None) \<and> P s'"
  proof (rule Cons.IH)
    show "\<And>i s. i \<in> set js \<Longrightarrow> P s \<Longrightarrow> \<exists>s'. body i s = (s', None) \<and> P s'"
      using Cons.prems(1) by (meson list.set_intros(2))
    show "P s1" by (rule s1(2))
  qed
  then show ?case using s1(1) by simp
qed

lemma has_shape3_nth:
  "has_shape3 T L B \<Longrightarrow> k < T \<Longrightarrow> is_array (B ! k) \<and> nrows (B ! k) = L \<and> ncols (B ! k) = L"
  by (simp add: has_shape3_def list_all_length)

lemma has_shape3_update:
  assumes "has_shape3 T L B" "is_array A" "nrows A = L" "ncols A = L"
  shows "has_shape3 T L (B[k := A])"
proof (cases "k < length B")
  case True
  then show ?thesis
    using assms by (simp add: has_shape3_def list_all_length nth_list_update)
next
  case False
  then have "B[k := A] = B" by (simp add: list_update_beyond)
  then show ?thesis using assms(1) by simp
qed

lemma broadcast_to_same:
  assumes "is_array A"
  shows "broadcast_to (nrows A) (ncols A) A = Inr A"
proof -
  have "tabulate2 (nrows A) (ncols A) (bget A) = tabulate2 (nrows A) (ncols A) (\<lambda>i j. A ! i ! j)"
    by (rule tabulate2_cong) (auto simp: bget_def)
  then show ?thesis using assms by (simp add: broadcast_to_def tabulate2_array)
qed

lemma set_slice_same:
  assumes "has_shape3 T L B" "k < T" "is_array A" "nrows A = L" "ncols A = L"
  shows "set_slice B k A = Inr (B[k := A])"
proof -
  have "k < length B" using assms(1,2) by (simp add: has_shape3_def)
  moreover have "broadcast_to (nrows (B ! k)) (ncols (B ! k)) A = Inr A"
    using has_shape3_nth [OF assms(1,2)] assms(3-5) broadcast_to_same [of A] by simp
  ultimately show ?thesis by (simp add: set_slice_def)
qed

lemma get_slice_in: "has_shape3 T L B \<Longrightarrow> k < T \<Longrightarrow> get_slice B k = Inr (B ! k)"
  by (simp add: get_slice_def has_shape3_def)

lemma shape_tab: "is_array (tabulate2 L L f) \<and> nrows (tabulate2 L L f) = L \<and> ncols (tabulate2 L L f) = L"
  by (simp add: ncols_tabulate2)

lemma ew_body_ok:
  assumes "has_shape3 T L (film s)" "0 < i" "i < T"
  shows "\<exists>s'. ew_body v i s = (s', None) \<and> has_shape3 T L (film s') \<and> noise s' = noise s"
proof -
  have p: "i - 1 < T" using assms by arith
  note F = has_shape3_nth [OF assms(1) p]
  obtain G where G: "ew_step v (film s ! (i - 1)) = Inr G" "G = tabulate2 L L (\<lambda>a b. film s ! (i - 1) ! a ! b + v * laplace (film s ! (i - 1)) ! a ! b)"
    using F by (simp add: ew_step_eq)
  have sh: "is_array G" "nrows G = L" "ncols G = L" using G(2) shape_tab by simp_all
  have "ew_body v i s = (s\<lparr>film := (film s)[i := G]\<rparr>, None)"
    using assms p G(1) sh
    by (simp add: ew_body_def get_slice_in [of T L] set_slice_same [of T L] assign_film_def)
  moreover have "has_shape3 T L ((film s)[i := G])" using assms(1) sh by (rule has_shape3_update)
  ultimately show ?thesis by simp
qed

lemma ew_noise_body_ok:
  assumes "has_shape3 T L (film s)" "has_shape3 T L (noise s)" "0 < i" "i < T"
  shows "\<exists>s'. ew_noise_body v i s = (s', None) \<and> has_shape3 T L (film s') \<and> noise s' = noise s"
proof -
  have p: "i - 1 < T" using assms by arith
  note F = has_shape3_nth [OF assms(1) p]
  note N = has_shape3_nth [OF assms(2,4)]
  obtain G where G: "ew_noise_step v (film s ! (i - 1)) (noise s ! i) = Inr G"
    "G = tabulate2 L L (\<lambda>a b. film s ! (i - 1) ! a ! b + (v * laplace (film s ! (i - 1)) ! a ! b + noise s ! i ! a ! b))"
    using F N by (simp add: ew_noise_step_eq)
  have sh: "is_array G" "nrows G = L" "ncols G = L" using G(2) shape_tab by simp_all
  have "ew_noise_body v i s = (s\<lparr>film := (film s)[i := G]\<rparr>, None)"
    using assms p G(1) sh
    by (simp add: ew_noise_body_def get_slice_in [of T L] set_slice_same [of T L] assign_film_def)
  moreover have "has_shape3 T L ((film s)[i := G])" using assms(1) sh by (rule has_shape3_update)
  ultimately show ?thesis by simp
qed

lemma kpz_body_ok:
  assumes "has_shape3 T L (film s)" "0 < i" "i < T" "2 \<le> L"
  shows "\<exists>s'. kpz_body v l i s = (s', None) \<and> has_shape3 T L (film s') \<and> noise s' = noise s"
proof -
  have p: "i - 1 < T" using assms by arith
  note F = has_shape3_nth [OF assms(1) p]
  have "\<exists>G. kpz_step v l (film s ! (i - 1)) = Inr G \<and> (\<exists>f. G = tabulate2 L L f)"
    using kpz_step_eq [of "film s ! (i - 1)" v l] F assms(4) by auto
  then obtain G where G: "kpz_step v l (film s ! (i - 1)) = Inr G" "\<exists>f. G = tabulate2 L L f"
    by blast
  have sh: "is_array G" "nrows G = L" "ncols G = L" using G(2) shape_tab by auto
  have "kpz_body v l i s = (s\<lparr>film := (film s)[i := G]\<rparr>, None)"
    using assms p G(1) sh
    by (simp add: kpz_body_def get_slice_in [of T L] set_slice_same [of T L] assign_film_def)
  moreover have "has_shape3 T L ((film s)[i := G])" using assms(1) sh by (rule has_shape3_update)
  ultimately show ?thesis by simp
qed

lemma kpz_noise_body_ok:
  assumes "has_shape3 T L (film s)" "has_shape3 T L (noise s)" "0 < i" "i < T" "2 \<le> L"
  shows "\<exists>s'. kpz_noise_body v l i s = (s', None) \<and> has_shape3 T L (film s') \<and> noise s' = noise s"
proof -
  have p: "i - 1 < T" using assms by arith
  note F = has_shape3_nth [OF assms(1) p]
  note N = has_shape3_nth [OF assms(2,4)]
  have "\<exists>G. kpz_noise_step v l (film s ! (i - 1)) (noise s ! i) = Inr G \<and> (\<exists>f. G = tabulate2 L L f)"
    using kpz_noise_step_eq [of "film s ! (i - 1)" "noise s ! i" v l] F N assms(5) by auto
  then obtain G where G: "kpz_noise_step v l (film s ! (i - 1)) (noise s ! i) = Inr G" "\<exists>f. G = tabulate2 L L f"
    by blast
  have sh: "is_array G" "nrows G = L" "ncols G = L" using G(2) shape_tab by auto
  obtain d where d: "kpz_drift v l (film s ! (i - 1)) = Inr d"
    using F assms(5) by (simp add: kpz_drift_eq)
  have "kpz_noise_body v l i s = (s\<lparr>film := (film s)[i := G]\<rparr>, None)"
    using assms p G(1) sh d
    by (simp add: kpz_noise_body_def get_slice_in [of T L] set_slice_same [of T L] assign_film_def)
  moreover have "has_shape3 T L ((film s)[i := G])" using assms(1) sh by (rule has_shape3_update)
  ultimately show ?thesis by simp
qed

lemma kpz_body_small:
  assumes "has_shape3 T L (film s)" "0 < i" "i < T" "L < 2"
  shows "kpz_body v l i s = (s, Some ValueError)"
proof -
  have p: "i - 1 < T" using assms by arith
  note F = has_shape3_nth [OF assms(1) p]
  have "kpz_drift v l (film s ! (i - 1)) = Inl ValueError"
    using F assms(4) by (simp add: kpz_drift_small)
  then show ?thesis
    using assms p by (simp add: kpz_body_def kpz_step_def get_slice_in [of T L] assign_film_def)
qed

lemma kpz_noise_body_small:
  assumes "has_shape3 T L (film s)" "0 < i" "i < T" "L < 2"
  shows "kpz_noise_body v l i s = (s, Some ValueError)"
proof -
  have p: "i - 1 < T" using assms by arith
  note F = has_shape3_nth [OF assms(1) p]
  have "kpz_drift v l (film s ! (i - 1)) = Inl ValueError"
    using F assms(4) by (simp add: kpz_drift_small)
  then show ?thesis
    using assms p by (simp add: kpz_noise_body_def get_slice_in [of T L] assign_film_def)
qed

lemma range_from_one: "2 \<le> T \<Longrightarrow> [1..<T] = 1 # [Suc 1..<T]"
  by (rule upt_conv_Cons) arith

lemma loop_ok:
  fixes body :: "nat \<Rightarrow> 'g globals \<Rightarrow> 'g globals \<times> error option" and s :: "'g globals"
  assumes "\<And>i (s :: 'g globals). 0 < i \<Longrightarrow> i < T \<Longrightarrow> has_shape3 T L (film s) \<and> noise s = ns
             \<Longrightarrow> \<exists>s'. body i s = (s', None) \<and> has_shape3 T L (film s') \<and> noise s' = ns"
    "has_shape3 T L (film s)" "noise s = ns"
  shows "snd (for_range [1..<T] body s) = None"
proof -
  have "\<exists>s'. for_range [1..<T] body s = (s', None) \<and> (has_shape3 T L (film s') \<and> noise s' = ns)"
  proof (rule for_range_ok [where P = "\<lambda>s :: 'g globals. has_shape3 T L (film s) \<and> noise s = ns"])
    show "has_shape3 T L (film s) \<and> noise s = ns" using assms(2,3) by simp
  next
    fix i and s :: "'g globals"
    assume "i \<in> set [1..<T]" "has_shape3 T L (film s) \<and> noise s = ns"
    then show "\<exists>s'. body i s = (s', None) \<and> (has_shape3 T L (film s') \<and> noise s' = ns)"
      using assms(1) [of i s] by simp
  qed
  then show ?thesis by auto
qed

section \<open>What the cells allocate\<close>

lemma unflatten_shape:
  assumes "length xs = m * n" "0 < m"
  shows "is_array (unflatten m n xs) \<and> nrows (unflatten m n xs) = m \<and> ncols (unflatten m n xs) = n"
proof -
  have rows: "\<And>r. r \<in> set (unflatten m n xs) \<Longrightarrow> length r = n"
    using assms(1) by (rule unflatten_rows)
  obtain k where k: "m = Suc k" using assms(2) by (cases m) auto
  have "ncols (unflatten m n xs) = length (take n xs)" by (simp add: k ncols_def)
  also have "\<dots> = n" using assms(1) k by simp
  finally have nc: "ncols (unflatten m n xs) = n" .
  then show ?thesis using rows by (simp add: is_array_def list_all_iff nrows_def)
qed

lemma replicate_shape:
  assumes "0 < m"
  shows "is_array (replicate m (replicate n c)) \<and> nrows (replicate m (replicate n c)) = m
       \<and> ncols (replicate m (replicate n c)) = n"
  using assms flat_field_def [of m n c] is_array_flat_field [of m n c] nrows_flat_field [of m n c]
    ncols_flat_field [of m n c]
  by simp

lemma has_shape3_zeros: "0 < L \<Longrightarrow> has_shape3 T L (np_zeros T L L)"
  using replicate_shape [of L L 0]
  by (simp add: has_shape3_def np_zeros_def list_all_iff)

lemma init_film_ok:
  fixes s :: "'g globals"
  assumes "uniform_ok (uniform lib)" "0 < L" "0 < T" "0 \<le> h"
  shows "\<exists>s'. init_film lib L T h seed s = (s', None) \<and> has_shape3 T L (film s')
              \<and> noise s' = noise s \<and> choice s' = choice s \<and> gaussian s' = gaussian s
              \<and> shuffler s' = shuffler s"
proof -
  let ?U = "unflatten L L (fst (uniform lib (default_rng lib seed) 0 h (L * L)))"
  have "length (fst (uniform lib (default_rng lib seed) 0 h (L * L))) = L * L"
    using assms(1) by (simp add: uniform_ok_def)
  then have U: "is_array ?U" "nrows ?U = L" "ncols ?U = L"
    using unflatten_shape [of _ L L] assms(2) by simp_all
  have Z: "has_shape3 T L (np_zeros T L L)" using assms(2) by (rule has_shape3_zeros)
  have "set_slice (np_zeros T L L) 0 ?U = Inr ((np_zeros T L L)[0 := ?U])"
    using Z assms(3) U by (rule set_slice_same)
  then have "init_film lib L T h seed s = (s\<lparr>film := (np_zeros T L L)[0 := ?U]\<rparr>, None)"
    using assms(4) by (simp add: init_film_def seq_def assign_film_def np_uniform_def)
  moreover have "has_shape3 T L ((np_zeros T L L)[0 := ?U])"
    using Z U by (rule has_shape3_update)
  ultimately show ?thesis by simp
qed

lemma init_film_negative:
  "h < 0 \<Longrightarrow> init_film lib L T h seed s = (s\<lparr>film := np_zeros T L L\<rparr>, Some ValueError)"
  by (simp add: init_film_def seq_def assign_film_def np_uniform_def)

lemma half_signed_shape:
  assumes "0 < L"
  shows "is_array (set_rows_from k c (neg_ones L L)) \<and> nrows (set_rows_from k c (neg_ones L L)) = L
       \<and> ncols (set_rows_from k c (neg_ones L L)) = L"
proof -
  let ?H = "set_rows_from k c (neg_ones L L)"
  have rows: "\<And>r. r \<in> set ?H \<Longrightarrow> length r = L"
    by (auto simp: half_signed_eq)
  have len: "length ?H = L" by (simp add: half_signed_eq)
  then obtain r rs where c: "?H = r # rs" using assms by (cases ?H) auto
  then have "r \<in> set ?H" by simp
  then have "length r = L" by (rule rows)
  then have "ncols ?H = L" using c by (simp add: ncols_def)
  then show ?thesis using rows len by (simp add: is_array_def list_all_iff nrows_def)
qed

lemma unflatten3_shape:
  assumes "length xs = t * (L * L)" "0 < L"
  shows "has_shape3 t L (unflatten3 t L L xs)"
proof -
  have "\<And>r. r \<in> set (unflatten t (L * L) xs) \<Longrightarrow> length r = L * L"
    using assms(1) by (rule unflatten_rows)
  then have "\<And>A. A \<in> set (unflatten3 t L L xs) \<Longrightarrow> is_array A \<and> nrows A = L \<and> ncols A = L"
    using unflatten_shape [of _ L L] assms(2) by (auto simp: unflatten3_def)
  then show ?thesis by (simp add: has_shape3_def list_all_iff unflatten3_def)
qed

lemma has_shape3_Cons:
  "is_array A \<and> nrows A = L \<and> ncols A = L \<Longrightarrow> has_shape3 t L B \<Longrightarrow> has_shape3 (Suc t) L (A # B)"
  by (simp add: has_shape3_def)

lemma make_noise_ok:
  fixes s :: "'g globals"
  assumes "interval_ok (random_interval lib)" "0 < L"
  shows "\<exists>s'. make_noise lib L T seed s = (s', None) \<and> has_shape3 T L (noise s') \<and> film s' = film s"
proof -
  let ?H = "set_rows_from (L div 2) 1 (neg_ones L L)"
  let ?y = "fst (shuffle (random_interval lib) (default_rng lib seed)
             (concat (replicate (T - 1) (flat2 ?H))))"
  have ylen: "length ?y = (T - 1) * (L * L)"
    using assms(1) by (simp add: shuffle_length length_concat_replicate_list length_half_signed)
  have "has_shape3 T L (noise (fst (make_noise lib L T seed s)))"
  proof (cases T)
    case 0
    then show ?thesis by (simp add: noise_after has_shape3_def unflatten3_def)
  next
    case (Suc t)
    have "has_shape3 t L (unflatten3 t L L ?y)"
      using ylen assms(2) unfolding Suc by (intro unflatten3_shape) simp_all
    then have "has_shape3 (Suc t) L (?H # unflatten3 t L L ?y)"
      using half_signed_shape [OF assms(2)] by (intro has_shape3_Cons) 
    then show ?thesis unfolding noise_after Suc by simp
  qed
  moreover have "snd (make_noise lib L T seed s) = None" "film (fst (make_noise lib L T seed s)) = film s"
    by (simp_all add: make_noise_def Let_def)
  ultimately show ?thesis by (metis prod.collapse)
qed

lemma seq_ok:
  "p s = (s1, None) \<Longrightarrow> seq p q s = q s1"
  by (simp add: seq_def)

lemma for_range_small:
  assumes "2 \<le> T" "body 1 s = (s, Some e)"
  shows "for_range [1..<T] body s = (s, Some e)"
proof -
  have r: "[1..<T] = 1 # [Suc 1..<T]" using assms(1) by (rule range_from_one)
  show ?thesis unfolding r using assms(2) by simp
qed

lemma ew_loop_ok:
  fixes s :: "'g globals"
  assumes "has_shape3 T L (film s)"
  shows "snd (for_range [1..<T] (ew_body v) s) = None"
proof (rule loop_ok [where L = L and ns = "noise s"])
  fix i and sa :: "'g globals"
  assume "0 < i" "i < T" "has_shape3 T L (film sa) \<and> noise sa = noise s"
  then show "\<exists>s'. ew_body v i sa = (s', None) \<and> has_shape3 T L (film s') \<and> noise s' = noise s"
    using ew_body_ok [of T L sa i v] by auto
qed (use assms in simp_all)

lemma ew_noise_loop_ok:
  fixes s :: "'g globals"
  assumes "has_shape3 T L (film s)" "has_shape3 T L (noise s)"
  shows "snd (for_range [1..<T] (ew_noise_body v) s) = None"
proof (rule loop_ok [where L = L and ns = "noise s"])
  fix i and sa :: "'g globals"
  assume "0 < i" "i < T" "has_shape3 T L (film sa) \<and> noise sa = noise s"
  then show "\<exists>s'. ew_noise_body v i sa = (s', None) \<and> has_shape3 T L (film s') \<and> noise s' = noise s"
    using ew_noise_body_ok [of T L sa i v] assms(2) by auto
qed (use assms in simp_all)

lemma kpz_loop_ok:
  fixes s :: "'g globals"
  assumes "has_shape3 T L (film s)" "2 \<le> L"
  shows "snd (for_range [1..<T] (kpz_body v l) s) = None"
proof (rule loop_ok [where L = L and ns = "noise s"])
  fix i and sa :: "'g globals"
  assume "0 < i" "i < T" "has_shape3 T L (film sa) \<and> noise sa = noise s"
  then show "\<exists>s'. kpz_body v l i sa = (s', None) \<and> has_shape3 T L (film s') \<and> noise s' = noise s"
    using kpz_body_ok [of T L sa i v l] assms(2) by auto
qed (use assms in simp_all)

lemma kpz_noise_loop_ok:
  fixes s :: "'g globals"
  assumes "has_shape3 T L (film s)" "has_shape3 T L (noise s)" "2 \<le> L"
  shows "snd (for_range [1..<T] (kpz_noise_body v l) s) = None"
proof (rule loop_ok [where L = L and ns = "noise s"])
  fix i and sa :: "'g globals"
  assume "0 < i" "i < T" "has_shape3 T L (film sa) \<and> noise sa = noise s"
  then show "\<exists>s'. kpz_noise_body v l i sa = (s', None) \<and> has_shape3 T L (film s') \<and> noise s' = noise s"
    using kpz_noise_body_ok [of T L sa i v l] assms(2,3) by auto
qed (use assms in simp_all)

lemma kpz_loop_small:
  fixes s :: "'g globals"
  assumes "has_shape3 T L (film s)" "L < 2" "2 \<le> T"
  shows "for_range [1..<T] (kpz_body v l) s = (s, Some ValueError)"
proof (rule for_range_small [OF assms(3)])
  have one: "(0::nat) < 1" "1 < T" using assms(3) by simp_all
  show "kpz_body v l 1 s = (s, Some ValueError)"
    using assms(1) one assms(2) by (rule kpz_body_small)
qed

lemma kpz_noise_loop_small:
  fixes s :: "'g globals"
  assumes "has_shape3 T L (film s)" "L < 2" "2 \<le> T"
  shows "for_range [1..<T] (kpz_noise_body v l) s = (s, Some ValueError)"
proof (rule for_range_small [OF assms(3)])
  have one: "(0::nat) < 1" "1 < T" using assms(3) by simp_all
  show "kpz_noise_body v l 1 s = (s, Some ValueError)"
    using assms(1) one assms(2) by (rule kpz_noise_body_small)
qed

lemma digit_uniform_ok: "uniform_ok (uniform digit_lib)"
  by (simp add: uniform_ok_def digit_lib_def)

section \<open>The runs of the cells\<close>

lemma cells_outcome:
  fixes s :: "'g globals"
  assumes "interval_ok (random_interval lib)" "uniform_ok (uniform lib)" "1 \<le> L" "2 \<le> T"
    "0 \<le> h"
  shows "snd (cell_diagnostic_tuesday lib L T v h seed_init s) = None
       \<and> snd (cell_collectible_bearing lib L T v h seed_init seed_random s) = None
       \<and> (2 \<le> L \<longrightarrow> snd (cell_clinical_prior lib L T v l h seed_init s) = None
                   \<and> snd (cell_removed_nothing lib L T v l h seed_init seed_random s) = None)
       \<and> (L < 2 \<longrightarrow>
             cell_clinical_prior lib L T v l h seed_init s
               = (fst (init_film lib L T h seed_init s), Some ValueError)
           \<and> cell_removed_nothing lib L T v l h seed_init seed_random s
               = (fst (make_noise lib L T seed_random (fst (init_film lib L T h seed_init s))),
                  Some ValueError))"
proof -
  have pos: "0 < L" "0 < T" using assms(3,4) by arith+
  obtain s1 where s1: "init_film lib L T h seed_init s = (s1, None)" "has_shape3 T L (film s1)"
    using init_film_ok [OF assms(2) pos assms(5), of seed_init s] by blast
  obtain s2 where s2: "make_noise lib L T seed_random s1 = (s2, None)"
      "has_shape3 T L (noise s2)" "film s2 = film s1"
    using make_noise_ok [OF assms(1) pos(1), of T seed_random s1] by blast
  have f2: "has_shape3 T L (film s2)" using s1(2) s2(3) by simp
  have c1: "cell_diagnostic_tuesday lib L T v h seed_init s = for_range [1..<T] (ew_body v) s1"
    using s1(1) by (simp add: cell_diagnostic_tuesday_def seq_ok)
  have c2: "cell_collectible_bearing lib L T v h seed_init seed_random s
            = for_range [1..<T] (ew_noise_body v) s2"
    using s1(1) s2(1) by (simp add: cell_collectible_bearing_def seq_ok)
  have c3: "cell_clinical_prior lib L T v l h seed_init s = for_range [1..<T] (kpz_body v l) s1"
    using s1(1) by (simp add: cell_clinical_prior_def seq_ok)
  have c4: "cell_removed_nothing lib L T v l h seed_init seed_random s
            = for_range [1..<T] (kpz_noise_body v l) s2"
    using s1(1) s2(1) by (simp add: cell_removed_nothing_def seq_ok)
  have e1: "fst (init_film lib L T h seed_init s) = s1" using s1(1) by simp
  have e2: "fst (make_noise lib L T seed_random s1) = s2" using s2(1) by simp
  show ?thesis
    unfolding c1 c2 c3 c4 e1 e2
    using ew_loop_ok [OF s1(2)] ew_noise_loop_ok [OF f2 s2(2)]
      kpz_loop_ok [OF s1(2)] kpz_noise_loop_ok [OF f2 s2(2)]
      kpz_loop_small [OF s1(2) _ assms(4)] kpz_noise_loop_small [OF f2 _ assms(4)]
    by blast
qed

section \<open>When the stepper fails\<close>



lemma np_add_Inr:
  assumes "bdim (nrows A) (nrows B) = Some m" "bdim (ncols A) (ncols B) = Some n"
  shows "np_add A B = Inr (tabulate2 m n (\<lambda>i j. bget A i j + bget B i j))"
  using assms by (simp add: np_add_def)

lemma np_add_Inl: "\<not> broadcastable A B \<Longrightarrow> np_add A B = Inl ValueError"
  by (auto simp: np_add_def broadcastable_def split: option.splits)





lemma broadcastable_cong:
  "nrows D = nrows F \<Longrightarrow> ncols D = ncols F \<Longrightarrow> broadcastable D N = broadcastable F N"
  by (simp add: broadcastable_def)











lemma body_error_stops:
  fixes body :: "nat \<Rightarrow> 'g globals \<Rightarrow> 'g globals \<times> error option"
  assumes "body i s = (s, Some e)"
  shows "for_range (i # js) body s = (s, Some e)"
  using assms by simp










section \<open>The iteration reads two slices and writes one\<close>

text \<open>
  Claim C7. One iteration of the Kardar-Parisi-Zhang loop with noise is deterministic and
  does not mutate its input: two runs from notebooks that agree on \<open>film[i-1]\<close> and
  \<open>noise[i]\<close> (and on the shape of the slice \<open>film[i]\<close> that receives the result) end the
  same way and, when they succeed, write the same new slice \<open>film[i]\<close>, whatever the
  generator state and the other slices are; the input slice \<open>film[i-1]\<close>, every slice other
  than \<open>film[i]\<close>, the noise and the generator are left unchanged.
\<close>

theorem stepper_pure:
  fixes s t :: "'g globals"
  assumes "0 < i" "i < length (film s)" "i < length (film t)"
    "i < length (noise s)" "i < length (noise t)"
    "film t ! (i - 1) = film s ! (i - 1)" "noise t ! i = noise s ! i"
    "nrows (film t ! i) = nrows (film s ! i)" "ncols (film t ! i) = ncols (film s ! i)"
  shows "snd (kpz_noise_body v l i t) = snd (kpz_noise_body v l i s)
       \<and> (snd (kpz_noise_body v l i s) = None \<longrightarrow>
            film (fst (kpz_noise_body v l i t)) ! i = film (fst (kpz_noise_body v l i s)) ! i)
       \<and> film (fst (kpz_noise_body v l i s)) ! (i - 1) = film s ! (i - 1)
       \<and> (\<forall>k. k \<noteq> i \<longrightarrow> film (fst (kpz_noise_body v l i s)) ! k = film s ! k)
       \<and> length (film (fst (kpz_noise_body v l i s))) = length (film s)
       \<and> noise (fst (kpz_noise_body v l i s)) = noise s
       \<and> shuffler (fst (kpz_noise_body v l i s)) = shuffler s"
proof -
  let ?F = "film s ! (i - 1)"
  let ?N = "noise s ! i"
  have p: "i - 1 < length (film s)" "i - 1 < length (film t)" using assms(1-3) by arith+
  define r where "r = err_bind (kpz_drift v l ?F) (\<lambda>d0. err_bind (kpz_noise_step v l ?F ?N)
            (\<lambda>G. broadcast_to (nrows (film s ! i)) (ncols (film s ! i)) G))"
  have bs: "kpz_noise_body v l i s
            = assign_film (err_bind r (\<lambda>A. Inr ((film s)[i := A]))) s"
    using assms(2,4) p(1)
    by (simp add: kpz_noise_body_def get_slice_def set_slice_def r_def err_bind_def split: sum.splits)
  have bt: "kpz_noise_body v l i t
            = assign_film (err_bind r (\<lambda>A. Inr ((film t)[i := A]))) t"
    using assms(3,5-9) p(2)
    by (simp add: kpz_noise_body_def get_slice_def set_slice_def r_def err_bind_def split: sum.splits)
  show ?thesis
  proof (cases r)
    case (Inl e)
    then show ?thesis unfolding bs bt by (simp add: assign_film_def)
  next
    case (Inr A)
    then show ?thesis unfolding bs bt using assms(1-3) by (simp add: assign_film_def)
  qed
qed

theorem stepper_pure_witness:
  "snd (kpz_noise_body (1 / 10) (1 / 20) 1
          (no_globals\<lparr>film := [[[1, 2], [3, 7]], [[4, 4], [4, 4]]],
                       noise := [[[- 1, - 1], [1, 1]], [[1, - 1], [- 1, 1]]],
                       shuffler := Some 5\<rparr> :: nat globals))
   = snd (kpz_noise_body (1 / 10) (1 / 20) 1
          (no_globals\<lparr>film := [[[1, 2], [3, 7]], [[0, 0], [0, 0]]],
                       noise := [[[1, 1], [1, 1]], [[1, - 1], [- 1, 1]]]\<rparr> :: nat globals))
   \<and> film (fst (kpz_noise_body (1 / 10) (1 / 20) 1
          (no_globals\<lparr>film := [[[1, 2], [3, 7]], [[4, 4], [4, 4]]],
                       noise := [[[- 1, - 1], [1, 1]], [[1, - 1], [- 1, 1]]],
                       shuffler := Some 5\<rparr> :: nat globals))) ! 1
     = film (fst (kpz_noise_body (1 / 10) (1 / 20) 1
          (no_globals\<lparr>film := [[[1, 2], [3, 7]], [[0, 0], [0, 0]]],
                       noise := [[[1, 1], [1, 1]], [[1, - 1], [- 1, 1]]]\<rparr> :: nat globals))) ! 1
   \<and> film (fst (kpz_noise_body (1 / 10) (1 / 20) 1
          (no_globals\<lparr>film := [[[1, 2], [3, 7]], [[0, 0], [0, 0]]],
                       noise := [[[1, 1], [1, 1]], [[1, - 1], [- 1, 1]]]\<rparr> :: nat globals))) ! 0
     = [[1, 2], [3, 7]]"
proof -
  let ?t = "no_globals\<lparr>film := [[[1, 2], [3, 7]], [[4, 4], [4, 4]]],
                       noise := [[[- 1, - 1], [1, 1]], [[1, - 1], [- 1, 1]]],
                       shuffler := Some 5\<rparr> :: nat globals"
  let ?s = "no_globals\<lparr>film := [[[1, 2], [3, 7]], [[0, 0], [0, 0]]],
                       noise := [[[1, 1], [1, 1]], [[1, - 1], [- 1, 1]]]\<rparr> :: nat globals"
  have h: "(0::nat) < 1" "1 < length (film ?s)" "1 < length (film ?t)"
    "1 < length (noise ?s)" "1 < length (noise ?t)"
    "film ?t ! (1 - 1) = film ?s ! (1 - 1)" "noise ?t ! 1 = noise ?s ! 1"
    "nrows (film ?t ! 1) = nrows (film ?s ! 1)" "ncols (film ?t ! 1) = ncols (film ?s ! 1)"
    by (simp_all add: nrows_def ncols_def)
  have ok: "snd (kpz_noise_body (1 / 10) (1 / 20) 1 ?s) = None"
    by code_simp
  show ?thesis
    using stepper_pure [OF h, of "1 / 10" "1 / 20"] ok by simp
qed

section \<open>Reproducible noise\<close>

text \<open>
  Claim C9. The arrays that the noise constructions assign depend on the seed (and on \<open>L\<close>
  and \<open>T\<close>) only: from any two states of the notebook, and in particular from the state
  left by an earlier call, the same seed yields the same \<open>noise\<close>, \<open>choice\<close> and
  \<open>gaussian\<close> arrays, since every construction creates a fresh generator from the seed.
\<close>

theorem noise_reproducible:
  fixes s t :: "'g globals"
  shows "noise (fst (make_noise lib L T seed t)) = noise (fst (make_noise lib L T seed s))
       \<and> choice (fst (cell_noble_question lib L seed t)) = choice (fst (cell_noble_question lib L seed s))
       \<and> gaussian (fst (cell_noble_question lib L seed t)) = gaussian (fst (cell_noble_question lib L seed s))
       \<and> noise (fst (make_noise lib L T seed (fst (make_noise lib L T seed s))))
           = noise (fst (make_noise lib L T seed s))
       \<and> gaussian (fst (cell_noble_question lib L seed (fst (cell_noble_question lib L seed s))))
           = gaussian (fst (cell_noble_question lib L seed s))
       \<and> choice (fst (cell_noble_question lib L seed (fst (cell_noble_question lib L seed s))))
           = choice (fst (cell_noble_question lib L seed s))"
  by (simp add: make_noise_def cell_noble_question_def Let_def)

end
